theory Spec2Isabelle
  imports Complex_Main "HOL-Library.Multiset"
begin

section \<open>Numbers printed in class names\<close>

text \<open>
  Template literals such as \<^verbatim>\<open>`${base}-${nextCount}`\<close> print a non-negative integer in
  decimal, without leading zeros.
\<close>

definition digitChar :: "nat \<Rightarrow> char" where
  "digitChar d = ''0123456789'' ! d"

fun showNat :: "nat \<Rightarrow> string" where
  "showNat n = (if n < 10 then [digitChar n] else showNat (n div 10) @ [digitChar (n mod 10)])"

declare showNat.simps [simp del]

definition isDigit :: "char \<Rightarrow> bool" where
  "isDigit c = (c \<in> set ''0123456789'')"

definition digitVal :: "char \<Rightarrow> nat" where
  "digitVal c = (of_char c :: nat) - 48"

text \<open>\<^verbatim>\<open>Number(match[1])\<close> on a string of decimal digits.\<close>

definition parseNat :: "string \<Rightarrow> nat" where
  "parseNat s = foldl (\<lambda>acc c. 10 * acc + digitVal c) 0 s"

section \<open>The export context\<close>

record StyleEntry =
  className :: string
  baseName :: string
  suffix :: nat
  cssText :: string

text \<open>
  \<^verbatim>\<open>ExportContext\<close>: the two \<^verbatim>\<open>Map\<close>s are partial functions; \<^verbatim>\<open>fontFamiliesUsed\<close> is
  read back in insertion order, so it is a list without repetitions; the other two
  \<^verbatim>\<open>Set\<close>s are only tested for membership.
\<close>

record ExportContext =
  nameCounts :: "string \<rightharpoonup> nat"
  styleMap :: "string \<rightharpoonup> string"
  utilityClasses :: "string set"
  styleEntries :: "StyleEntry list"
  fontFamiliesUsed :: "string list"
  usedBaseClasses :: "string set"
  svgIdCounter :: nat

text \<open>The context that \<^verbatim>\<open>exportSelection\<close> creates at the start of a run.\<close>

definition freshContext :: ExportContext where
  "freshContext = \<lparr> nameCounts = Map.empty, styleMap = Map.empty, utilityClasses = {},
     styleEntries = [], fontFamiliesUsed = [], usedBaseClasses = {}, svgIdCounter = 0 \<rparr>"

definition getUniqueClassName :: "string \<Rightarrow> ExportContext \<Rightarrow> string \<times> ExportContext" where
  "getUniqueClassName base context =
     (let nextCount = (case nameCounts context base of None \<Rightarrow> 0 | Some c \<Rightarrow> c) + 1;
          context' = context\<lparr> nameCounts := (nameCounts context)(base \<mapsto> nextCount) \<rparr>
      in (if nextCount = 1 then base else base @ ''-'' @ showNat nextCount, context'))"

text \<open>Calling the generator \<open>n\<close> times in a row with the same base, collecting the names.\<close>

fun uniqueNames :: "nat \<Rightarrow> string \<Rightarrow> ExportContext \<Rightarrow> string list \<times> ExportContext" where
  "uniqueNames 0 base context = ([], context)"
| "uniqueNames (Suc n) base context =
     (let (name, context') = getUniqueClassName base context;
          (names, context'') = uniqueNames n base context'
      in (name # names, context''))"

text \<open>The name the generator returns on its \<open>k\<close>-th use of a base.\<close>

definition nthName :: "string \<Rightarrow> nat \<Rightarrow> string" where
  "nthName base k = (if k = 1 then base else base @ ''-'' @ showNat k)"

section \<open>The style registry\<close>

text \<open>\<^verbatim>\<open>Array.prototype.join\<close>.\<close>

fun joinWith :: "string \<Rightarrow> string list \<Rightarrow> string" where
  "joinWith sep [] = []"
| "joinWith sep [x] = x"
| "joinWith sep (x # y # ys) = x @ sep @ joinWith sep (y # ys)"

definition newline :: string where
  "newline = [CHR 0x0A]"

text \<open>
  The regular expression \<^verbatim>\<open>/-(\d+)$/\<close>: the class name ends in a hyphen followed by one
  or more decimal digits. The result is the digit string, when there is a match.
\<close>

definition suffixMatch :: "string \<Rightarrow> string option" where
  "suffixMatch s =
     (let digits = rev (takeWhile isDigit (rev s));
          rest = dropWhile isDigit (rev s)
      in if digits \<noteq> [] \<and> rest \<noteq> [] \<and> hd rest = CHR ''-'' then Some digits else None)"

text \<open>
  \<^verbatim>\<open>getBaseNameAndSuffix\<close> uses \<^verbatim>\<open>/^(.*?)-(\d+)$/\<close>: the same split at the last hyphen,
  but \<^verbatim>\<open>.\<close> does not match a line terminator, so a name with a line break before the
  hyphen does not match.
\<close>

definition isLineTerminator :: "char \<Rightarrow> bool" where
  "isLineTerminator c = (c = CHR 0x0A \<or> c = CHR 0x0D)"

definition getBaseNameAndSuffix :: "string \<Rightarrow> string \<times> nat" where
  "getBaseNameAndSuffix cls =
     (let digits = rev (takeWhile isDigit (rev cls));
          rest = dropWhile isDigit (rev cls)
      in if digits \<noteq> [] \<and> rest \<noteq> [] \<and> hd rest = CHR ''-''
            \<and> \<not> list_ex isLineTerminator (tl rest)
         then (rev (tl rest), parseNat digits)
         else (cls, 0))"

definition ruleText :: "string \<Rightarrow> string list \<Rightarrow> string" where
  "ruleText cls lines =
     ''.'' @ cls @ '' {'' @ newline @ joinWith newline lines @ newline @ ''}'' @ newline @ newline"

definition registerUtilityClass :: "string \<Rightarrow> string list \<Rightarrow> ExportContext \<Rightarrow> ExportContext" where
  "registerUtilityClass cls lines context =
     (if cls \<in> utilityClasses context then context
      else (let (base, suf) = getBaseNameAndSuffix cls
            in context\<lparr> utilityClasses := insert cls (utilityClasses context),
                        styleEntries := styleEntries context @
                          [\<lparr> className = cls, baseName = base, suffix = suf,
                             cssText = ruleText cls lines \<rparr>] \<rparr>))"

text \<open>
  \<^verbatim>\<open>if (existing) return existing;\<close> takes the stored name only when it is truthy: present
  and not the empty string.
\<close>

definition getClassForStyle ::
  "string \<Rightarrow> string list \<Rightarrow> ExportContext \<Rightarrow> string \<times> ExportContext" where
  "getClassForStyle base lines context =
     (let signature = joinWith newline lines;
          existing = styleMap context signature
      in if existing \<noteq> None \<and> existing \<noteq> Some [] then (the existing, context)
         else
          (let (cls, context1) = getUniqueClassName base context;
               context2 = context1\<lparr> styleMap := (styleMap context1)(signature \<mapsto> cls) \<rparr>;
               suf = (case suffixMatch cls of Some digits \<Rightarrow> parseNat digits | None \<Rightarrow> 0)
           in (cls, context2\<lparr> styleEntries := styleEntries context2 @
                    [\<lparr> className = cls, baseName = base, suffix = suf,
                       cssText = ruleText cls lines \<rparr>] \<rparr>)))"

section \<open>Serializing the stylesheet\<close>

datatype OutputFormat = Html | React

text \<open>
  The comparator handed to \<^verbatim>\<open>Array.prototype.sort\<close> in \<^verbatim>\<open>exportSelection\<close>. The host's
  \<^verbatim>\<open>String.prototype.localeCompare\<close> is a parameter \<open>lc\<close>: negative, zero or positive.
\<close>

definition compareEntries :: "(string \<Rightarrow> string \<Rightarrow> int) \<Rightarrow> StyleEntry \<Rightarrow> StyleEntry \<Rightarrow> int" where
  "compareEntries lc a b =
     (let baseCompare = lc (baseName a) (baseName b)
      in if baseCompare \<noteq> 0 then baseCompare else int (suffix a) - int (suffix b))"

text \<open>
  \<^verbatim>\<open>Array.prototype.sort\<close> is a stable sort: elements that compare equal keep their
  order. Modelled as insertion sort, each element going in front of the first element
  that is not smaller.
\<close>

fun insertSorted :: "('a \<Rightarrow> 'a \<Rightarrow> int) \<Rightarrow> 'a \<Rightarrow> 'a list \<Rightarrow> 'a list" where
  "insertSorted cmp x [] = [x]"
| "insertSorted cmp x (y # ys) =
     (if cmp x y \<le> 0 then x # y # ys else y # insertSorted cmp x ys)"

definition sortWith :: "('a \<Rightarrow> 'a \<Rightarrow> int) \<Rightarrow> 'a list \<Rightarrow> 'a list" where
  "sortWith cmp xs = foldr (insertSorted cmp) xs []"

text \<open>
  The CSS text of \<^verbatim>\<open>exportSelection\<close>: the font import (React only), the reset rule,
  then the rule text of every entry in sorted order.
\<close>

definition stylesheetCss ::
  "(string \<Rightarrow> string \<Rightarrow> int) \<Rightarrow> OutputFormat \<Rightarrow> string \<Rightarrow> StyleEntry list \<Rightarrow> string" where
  "stylesheetCss lc format fontImport entries =
     (if format = React then fontImport else []) @
     ''body, p { margin: 0; }'' @ newline @ newline @
     concat (map cssText (sortWith (compareEntries lc) entries))"

text \<open>
  What a comparator must satisfy for \<^verbatim>\<open>sort\<close> to have a defined result: swapping the
  arguments flips the sign, and "not greater" is transitive.
\<close>

definition consistentComparator :: "('a \<Rightarrow> 'a \<Rightarrow> int) \<Rightarrow> bool" where
  "consistentComparator cmp =
     ((\<forall>a b. sgn (cmp a b) = - sgn (cmp b a)) \<and>
      (\<forall>a b c. cmp a b \<le> 0 \<and> cmp b c \<le> 0 \<longrightarrow> cmp a c \<le> 0))"

text \<open>
  A comparator for concrete runs: strings compared code unit by code unit, a proper
  prefix first.
\<close>

fun codeUnitCompare :: "string \<Rightarrow> string \<Rightarrow> int" where
  "codeUnitCompare [] [] = 0"
| "codeUnitCompare [] (y # ys) = - 1"
| "codeUnitCompare (x # xs) [] = 1"
| "codeUnitCompare (x # xs) (y # ys) =
     (if (of_char x :: nat) < of_char y then - 1
      else if (of_char y :: nat) < of_char x then 1
      else codeUnitCompare xs ys)"

section \<open>Names and text\<close>

text \<open>
  Strings are lists of 8-bit code units. \<^verbatim>\<open>toLowerCase\<close> is modelled on the letters
  \<open>A\<close> to \<open>Z\<close>; the other code units it would change lie outside ASCII before and after,
  and the next step of \<^verbatim>\<open>sanitizeName\<close> removes them either way.
\<close>

definition toLowerChar :: "char \<Rightarrow> char" where
  "toLowerChar c =
     (if 65 \<le> (of_char c :: nat) \<and> (of_char c :: nat) \<le> 90 then char_of ((of_char c :: nat) + 32)
      else c)"

definition toLowerCase :: "string \<Rightarrow> string" where
  "toLowerCase s = map toLowerChar s"

text \<open>The character class \<^verbatim>\<open>[a-z0-9-_ ]\<close>, its two ranges by code unit.\<close>

definition isNameChar :: "char \<Rightarrow> bool" where
  "isNameChar c =
     ((97 \<le> (of_char c :: nat) \<and> (of_char c :: nat) \<le> 122) \<or>
      (48 \<le> (of_char c :: nat) \<and> (of_char c :: nat) \<le> 57) \<or>
      c = CHR ''-'' \<or> c = CHR ''_'' \<or> c = CHR '' '')"

text \<open>White space as \<^verbatim>\<open>trim\<close> and \<^verbatim>\<open>\s\<close> see it, among 8-bit code units.\<close>

definition isWhitespace :: "char \<Rightarrow> bool" where
  "isWhitespace c = (c \<in> set [CHR 0x09, CHR 0x0A, CHR 0x0B, CHR 0x0C, CHR 0x0D, CHR 0x20, CHR 0xA0])"

definition trim :: "string \<Rightarrow> string" where
  "trim s = rev (dropWhile isWhitespace (rev (dropWhile isWhitespace s)))"

text \<open>\<^verbatim>\<open>replace(/\s+/g, '-')\<close>: every maximal run of white space becomes one hyphen.\<close>

function collapseWhitespace :: "string \<Rightarrow> string" where
  "collapseWhitespace [] = []"
| "collapseWhitespace (c # cs) =
     (if isWhitespace c then CHR ''-'' # collapseWhitespace (dropWhile isWhitespace cs)
      else c # collapseWhitespace cs)"
  by pat_completeness auto
termination
  by (relation "measure length") (auto simp: length_dropWhile_le less_Suc_eq_le)

definition isHyphen :: "char \<Rightarrow> bool" where
  "isHyphen c = (c = CHR ''-'')"

text \<open>\<^verbatim>\<open>replace(/^-+|-+$/g, '')\<close>: the leading and the trailing hyphens go.\<close>

definition stripHyphens :: "string \<Rightarrow> string" where
  "stripHyphens s = rev (dropWhile isHyphen (rev (dropWhile isHyphen s)))"

definition sanitizeName :: "string \<Rightarrow> string" where
  "sanitizeName name =
     stripHyphens (collapseWhitespace (trim (filter isNameChar (toLowerCase name))))"

text \<open>The characters a sanitized name is made of: \<^verbatim>\<open>[a-z0-9-_]\<close>.\<close>

definition cleanChar :: "char \<Rightarrow> bool" where
  "cleanChar c = (isNameChar c \<and> \<not> isWhitespace c)"

text \<open>
  \<^verbatim>\<open>escapeHtml\<close> and \<^verbatim>\<open>escapeJsxText\<close>: \<^verbatim>\<open>replace\<close> with a global character class and a
  table of entities, so each character is looked at once.
\<close>

definition htmlEntity :: "char \<Rightarrow> string" where
  "htmlEntity c =
     (if c = CHR ''&'' then ''&amp;''
      else if c = CHR ''<'' then ''&lt;''
      else if c = CHR ''>'' then ''&gt;''
      else if c = CHR 0x22 then ''&quot;''
      else if c = CHR 0x27 then ''&#39;''
      else [c])"

definition escapeHtml :: "string \<Rightarrow> string" where
  "escapeHtml s = concat (map htmlEntity s)"

definition jsxEntity :: "char \<Rightarrow> string" where
  "jsxEntity c =
     (if c = CHR ''&'' then ''&amp;''
      else if c = CHR ''<'' then ''&lt;''
      else if c = CHR ''>'' then ''&gt;''
      else if c = CHR ''{'' then ''&#123;''
      else if c = CHR ''}'' then ''&#125;''
      else [c])"

definition escapeJsxText :: "string \<Rightarrow> string" where
  "escapeJsxText s = concat (map jsxEntity s)"

section \<open>Numbers\<close>

text \<open>
  JavaScript numbers are modelled as rationals: the arithmetic of the helpers below is
  exact, where the source rounds to the nearest double. \<^verbatim>\<open>Math.round\<close> rounds a half up.
\<close>

definition mathRound :: "rat \<Rightarrow> int" where
  "mathRound n = \<lfloor>n + 1 / 2\<rfloor>"

definition roundPx :: "rat \<Rightarrow> rat" where
  "roundPx n = of_int (mathRound (n * 100)) / 100"

definition roundDim :: "rat \<Rightarrow> int" where
  "roundDim n = mathRound n"

definition isMeaningfulRotation :: "rat \<Rightarrow> bool" where
  "isMeaningfulRotation r = (\<bar>r\<bar> \<ge> 1 / 100)"

definition cssRotationDeg :: "rat \<Rightarrow> rat" where
  "cssRotationDeg rotation = roundPx (- rotation)"

definition showInt :: "int \<Rightarrow> string" where
  "showInt i = (if i < 0 then ''-'' @ showNat (nat (- i)) else showNat (nat i))"

text \<open>
  How a template literal prints a number is a parameter of the helpers that print one
  (\<open>str\<close> below). For concrete runs, \<open>decimalString\<close> prints a number that has at most
  two decimals, as every result of \<^verbatim>\<open>roundPx\<close> has: the sign, the integer part and the
  decimals without trailing zeros.
\<close>

definition decimalString :: "rat \<Rightarrow> string" where
  "decimalString n =
     (let h = \<lfloor>n * 100\<rfloor>;
          a = nat \<bar>h\<bar>;
          whole = a div 100;
          frac = a mod 100
      in (if h < 0 then ''-'' else []) @ showNat whole @
         (if frac = 0 then []
          else if frac mod 10 = 0 then ''.'' @ [digitChar (frac div 10)]
          else ''.'' @ [digitChar (frac div 10), digitChar (frac mod 10)]))"

definition formatNegativeClassValue :: "rat \<Rightarrow> string" where
  "formatNegativeClassValue v =
     (let absValue = mathRound \<bar>v\<bar>
      in if v < 0 then ''neg-'' @ showInt absValue else showInt absValue)"

section \<open>Scene nodes\<close>

datatype NodeType =
  FRAME | COMPONENT | INSTANCE | GROUP | TRANSFORM_GROUP | TEXT | RECTANGLE | ELLIPSE
  | VECTOR | LINE | POLYGON | STAR | BOOLEAN_OPERATION | OTHER_NODE

datatype LayoutMode = NONE | HORIZONTAL | VERTICAL | GRID

datatype LayoutWrap = NO_WRAP | WRAP

datatype AlignContent = ContentAUTO | ContentSPACE_BETWEEN

datatype PrimaryAlign = PrimaryMIN | PrimaryMAX | PrimaryCENTER | SPACE_BETWEEN | PrimaryOther

datatype CounterAlign = CounterMIN | CounterMAX | CounterCENTER | BASELINE | CounterOther

datatype ConstraintType = ConstraintMIN | ConstraintCENTER | ConstraintMAX | STRETCH | SCALE

datatype LayoutPositioning = AUTO | ABSOLUTE

text \<open>
  \<open>PrimaryOther\<close> and \<open>CounterOther\<close> stand for any value that the \<^verbatim>\<open>switch\<close> statements
  send to their \<^verbatim>\<open>default\<close> branch.
\<close>

text \<open>\<^verbatim>\<open>cornerRadius\<close>: absent, \<^verbatim>\<open>figma.mixed\<close>, or a number.\<close>

datatype CornerRadius = NoRadius | MixedRadius | Radius rat

text \<open>The auto-layout properties of a frame.\<close>

record FrameLayout =
  layoutMode :: LayoutMode
  layoutWrap :: LayoutWrap
  counterAxisAlignContent :: AlignContent
  counterAxisSpacing :: "rat option"
  itemSpacing :: rat
  paddingTop :: rat
  paddingRight :: rat
  paddingBottom :: rat
  paddingLeft :: rat
  primaryAxisAlignItems :: PrimaryAlign
  counterAxisAlignItems :: CounterAlign
  itemReverseZIndex :: bool
  gridRowCount :: "nat option"
  gridColumnCount :: "nat option"

text \<open>
  The properties of a node that the modelled code reads itself. A property that a node
  type does not have is \<open>None\<close> (or \<open>NoRadius\<close>); \<open>isMask\<close> is true when the property is
  present and \<^verbatim>\<open>true\<close>; \<open>fontFamily\<close> is \<^verbatim>\<open>fontName.family\<close> unless the font is mixed;
  \<open>nodeX\<close> and \<open>nodeY\<close> are \<^verbatim>\<open>node.x\<close> and \<^verbatim>\<open>node.y\<close>. What the unmodelled paint and text helpers read is not here: they
  are parameters, functions of the node.
\<close>

record NodeProps =
  nodeId :: string
  nodeName :: string
  nodeType :: NodeType
  visible :: bool
  isMask :: bool
  maskType :: "string option"
  nodeX :: rat
  nodeY :: rat
  width :: rat
  height :: rat
  rotation :: rat
  opacity :: rat
  layoutPositioning :: "LayoutPositioning option"
  constraints :: "(ConstraintType \<times> ConstraintType) option"
  cornerRadius :: CornerRadius
  cornerRadii :: "(rat \<times> rat \<times> rat \<times> rat) option"
  fontFamily :: "string option"
  characters :: string
  layout :: FrameLayout

datatype SceneNode = SceneNode (props: NodeProps) (children: "SceneNode list")

text \<open>
  \<^verbatim>\<open>parent.children.indexOf(node)\<close> compares object identity; a node is identified by its
  id. The result is \<open>-1\<close> when the node is not among the children.
\<close>

fun indexFrom :: "string \<Rightarrow> SceneNode list \<Rightarrow> int \<Rightarrow> int" where
  "indexFrom i [] n = - 1"
| "indexFrom i (c # cs) n = (if nodeId (props c) = i then n else indexFrom i cs (n + 1))"

definition indexOfNode :: "SceneNode list \<Rightarrow> SceneNode \<Rightarrow> int" where
  "indexOfNode cs node = indexFrom (nodeId (props node)) cs 0"

section \<open>Position of an absolutely positioned child\<close>

definition getAbsolutePositionStyles ::
  "(rat \<Rightarrow> string) \<Rightarrow> SceneNode \<Rightarrow> SceneNode option \<Rightarrow> string list" where
  "getAbsolutePositionStyles str node parentFrame =
     (case parentFrame of
        None \<Rightarrow> []
      | Some pf \<Rightarrow>
          if layoutPositioning (props node) \<noteq> Some ABSOLUTE then []
          else
            (let n = props node;
                 zIndex = indexOfNode (children pf) node;
                 zStyles = (if zIndex \<ge> 0 then [''z-index: '' @ showInt zIndex] else []);
                 (horizontal, vertical) =
                   (case constraints n of Some c \<Rightarrow> c | None \<Rightarrow> (ConstraintMIN, ConstraintMIN));
                 left = roundPx (nodeX n);
                 top = roundPx (nodeY n);
                 right = roundPx (width (props pf) - (nodeX n + width n));
                 bottom = roundPx (height (props pf) - (nodeY n + height n));
                 (stylesH, partsH) =
                   (case horizontal of
                      ConstraintMAX \<Rightarrow> ([''right: '' @ str right @ ''px''], [])
                    | ConstraintCENTER \<Rightarrow>
                        (let centerX = nodeX n + width n / 2;
                             offsetX = roundPx (centerX - width (props pf) / 2)
                         in ([''left: 50%''],
                             ''translateX(-50%)'' #
                               (if mathRound offsetX \<noteq> 0
                                then [''translateX('' @ str offsetX @ ''px)''] else [])))
                    | STRETCH \<Rightarrow> ([''left: '' @ str left @ ''px'', ''right: '' @ str right @ ''px''], [])
                    | _ \<Rightarrow> ([''left: '' @ str left @ ''px''], []));
                 (stylesV, partsV) =
                   (case vertical of
                      ConstraintMAX \<Rightarrow> ([''bottom: '' @ str bottom @ ''px''], [])
                    | ConstraintCENTER \<Rightarrow>
                        (let centerY = nodeY n + height n / 2;
                             offsetY = roundPx (centerY - height (props pf) / 2)
                         in ([''top: 50%''],
                             ''translateY(-50%)'' #
                               (if mathRound offsetY \<noteq> 0
                                then [''translateY('' @ str offsetY @ ''px)''] else [])))
                    | STRETCH \<Rightarrow> ([''top: '' @ str top @ ''px'', ''bottom: '' @ str bottom @ ''px''], [])
                    | _ \<Rightarrow> ([''top: '' @ str top @ ''px''], []));
                 (stylesR, partsR) =
                   (if isMeaningfulRotation (rotation n)
                    then ([''transform-origin: 0 0''],
                          [''rotate('' @ str (cssRotationDeg (rotation n)) @ ''deg)''])
                    else ([], []));
                 transformParts = partsH @ partsV @ partsR
             in [''position: absolute''] @ zStyles @ stylesH @ stylesV @ stylesR @
                (if transformParts \<noteq> []
                 then [''transform: '' @ joinWith '' '' transformParts] else [])))"

text \<open>Nodes for concrete runs: every property at its neutral value.\<close>

definition plainLayout :: FrameLayout where
  "plainLayout = \<lparr> layoutMode = NONE, layoutWrap = NO_WRAP, counterAxisAlignContent = ContentAUTO,
     counterAxisSpacing = None, itemSpacing = 0, paddingTop = 0, paddingRight = 0,
     paddingBottom = 0, paddingLeft = 0, primaryAxisAlignItems = PrimaryMIN,
     counterAxisAlignItems = CounterMIN, itemReverseZIndex = False,
     gridRowCount = None, gridColumnCount = None \<rparr>"

definition plainProps :: "string \<Rightarrow> string \<Rightarrow> NodeType \<Rightarrow> NodeProps" where
  "plainProps i nm t = \<lparr> nodeId = i, nodeName = nm, nodeType = t, visible = True, isMask = False,
     maskType = None, nodeX = 0, nodeY = 0, width = 0, height = 0, rotation = 0, opacity = 1,
     layoutPositioning = None, constraints = None, cornerRadius = NoRadius, cornerRadii = None,
     fontFamily = None, characters = [], layout = plainLayout \<rparr>"

text \<open>
  What the CENTER rule asks of one axis (\<open>axis\<close> is \<open>X\<close> or \<open>Y\<close>): the \<open>-50%\<close> translate,
  then the residual translate when the residual does not round to zero.
\<close>

definition centerParts :: "(rat \<Rightarrow> string) \<Rightarrow> string \<Rightarrow> rat \<Rightarrow> string list" where
  "centerParts str axis residual =
     (''translate'' @ axis @ ''(-50%)'') #
     (if mathRound residual \<noteq> 0 then [''translate'' @ axis @ ''('' @ str residual @ ''px)''] else [])"

text \<open>The child's centre minus the container's centre on each axis, rounded by \<^verbatim>\<open>roundPx\<close>.\<close>

definition residualX :: "SceneNode \<Rightarrow> SceneNode \<Rightarrow> rat" where
  "residualX node pf =
     roundPx (nodeX (props node) + width (props node) / 2 - width (props pf) / 2)"

definition residualY :: "SceneNode \<Rightarrow> SceneNode \<Rightarrow> rat" where
  "residualY node pf =
     roundPx (nodeY (props node) + height (props node) / 2 - height (props pf) / 2)"

text \<open>
  The example of the specification: a 200 by 100 container and a 50 by 20 child with
  CENTER constraints on both axes, at local (0, 0) and at the centred position (75, 40).
\<close>

definition exampleChild :: "rat \<Rightarrow> rat \<Rightarrow> SceneNode" where
  "exampleChild px py =
     SceneNode ((plainProps ''1:2'' ''Badge'' RECTANGLE)\<lparr> nodeX := px, nodeY := py,
        width := 50, height := 20, layoutPositioning := Some ABSOLUTE,
        constraints := Some (ConstraintCENTER, ConstraintCENTER) \<rparr>) []"

definition exampleContainer :: "SceneNode \<Rightarrow> SceneNode" where
  "exampleContainer child =
     SceneNode ((plainProps ''1:1'' ''Card'' FRAME)\<lparr> width := 200, height := 100,
        layout := plainLayout\<lparr> layoutMode := HORIZONTAL \<rparr> \<rparr>) [child]"

section \<open>Flex utilities\<close>

text \<open>
  The helpers that register utility classes repeat one pair of statements,
  \<^verbatim>\<open>registerUtilityClass(cls, lines, context); classes.push(cls);\<close>. The state they work on
  is the pair of the class list collected so far and the context.
\<close>

definition addUtility ::
  "string \<Rightarrow> string list \<Rightarrow> string list \<times> ExportContext \<Rightarrow> string list \<times> ExportContext" where
  "addUtility cls lines st = (fst st @ [cls], registerUtilityClass cls lines (snd st))"

text \<open>
  \<^verbatim>\<open>registerFlexUtilities\<close>, block by block in the order of the source: display and
  direction, wrapping, the gap, the padding, and the two alignments.
\<close>

definition flexDirectionUtilities :: "FrameLayout \<Rightarrow> ExportContext \<Rightarrow> string list \<times> ExportContext" where
  "flexDirectionUtilities f context =
     (let directionClass = (if layoutMode f = HORIZONTAL then ''flex-row'' else ''flex-col'')
      in addUtility directionClass
           [''  flex-direction: '' @ (if layoutMode f = HORIZONTAL then ''row'' else ''column'') @ '';'']
           (addUtility ''flex'' [''  display: flex;''] ([], context)))"

definition flexWrapUtilities ::
  "(rat \<Rightarrow> string) \<Rightarrow> FrameLayout \<Rightarrow> string list \<times> ExportContext \<Rightarrow> string list \<times> ExportContext" where
  "flexWrapUtilities str f st =
     (if layoutWrap f = WRAP then
        (let stW = addUtility ''flex-wrap'' [''  flex-wrap: wrap;''] st;
             stC = (if counterAxisAlignContent f = ContentSPACE_BETWEEN
                    then addUtility ''content-between'' [''  align-content: space-between;''] stW
                    else stW);
             counterSpacing = (case counterAxisSpacing f of Some sp \<Rightarrow> sp | None \<Rightarrow> itemSpacing f)
         in if counterSpacing > 0 then
              (if layoutMode f = HORIZONTAL
               then addUtility (''row-gap-'' @ formatNegativeClassValue counterSpacing)
                      [''  row-gap: '' @ str counterSpacing @ ''px;''] stC
               else addUtility (''column-gap-'' @ formatNegativeClassValue counterSpacing)
                      [''  column-gap: '' @ str counterSpacing @ ''px;''] stC)
            else stC)
      else st)"

text \<open>
  \<^verbatim>\<open>// When SPACE_BETWEEN, Figma distributes space - don't add fixed gap\<close>
\<close>

definition flexGapUtility ::
  "(rat \<Rightarrow> string) \<Rightarrow> FrameLayout \<Rightarrow> string list \<times> ExportContext \<Rightarrow> string list \<times> ExportContext" where
  "flexGapUtility str f st =
     (let isAutoGap = (primaryAxisAlignItems f = SPACE_BETWEEN)
      in if \<not> isAutoGap then
           (let gapValue = formatNegativeClassValue (itemSpacing f);
                gapClass = ''gap-'' @ gapValue
            in addUtility gapClass [''  gap: '' @ str (itemSpacing f) @ ''px;''] st)
         else st)"

definition flexPaddingUtilities ::
  "(rat \<Rightarrow> string) \<Rightarrow> FrameLayout \<Rightarrow> string list \<times> ExportContext \<Rightarrow> string list \<times> ExportContext" where
  "flexPaddingUtilities str f st =
     (let allSame = (paddingTop f = paddingRight f \<and> paddingTop f = paddingBottom f
                      \<and> paddingTop f = paddingLeft f)
      in if allSame then
           addUtility (''p-'' @ formatNegativeClassValue (paddingTop f))
             [''  padding: '' @ str (paddingTop f) @ ''px;''] st
         else
           (let stT = (if paddingTop f \<noteq> 0
                       then addUtility (''pt-'' @ formatNegativeClassValue (paddingTop f))
                              [''  padding-top: '' @ str (paddingTop f) @ ''px;''] st
                       else st);
                stR = (if paddingRight f \<noteq> 0
                       then addUtility (''pr-'' @ formatNegativeClassValue (paddingRight f))
                              [''  padding-right: '' @ str (paddingRight f) @ ''px;''] stT
                       else stT);
                stB = (if paddingBottom f \<noteq> 0
                       then addUtility (''pb-'' @ formatNegativeClassValue (paddingBottom f))
                              [''  padding-bottom: '' @ str (paddingBottom f) @ ''px;''] stR
                       else stR)
            in if paddingLeft f \<noteq> 0
               then addUtility (''pl-'' @ formatNegativeClassValue (paddingLeft f))
                      [''  padding-left: '' @ str (paddingLeft f) @ ''px;''] stB
               else stB))"

definition mapPrimaryAxis :: "PrimaryAlign \<Rightarrow> string" where
  "mapPrimaryAxis val =
     (case val of
        PrimaryMIN \<Rightarrow> ''flex-start''
      | PrimaryMAX \<Rightarrow> ''flex-end''
      | PrimaryCENTER \<Rightarrow> ''center''
      | SPACE_BETWEEN \<Rightarrow> ''space-between''
      | PrimaryOther \<Rightarrow> ''flex-start'')"

definition mapCounterAxis :: "CounterAlign \<Rightarrow> string" where
  "mapCounterAxis val =
     (case val of
        CounterMIN \<Rightarrow> ''flex-start''
      | CounterMAX \<Rightarrow> ''flex-end''
      | CounterCENTER \<Rightarrow> ''center''
      | BASELINE \<Rightarrow> ''baseline''
      | CounterOther \<Rightarrow> ''stretch'')"

definition flexAlignUtilities ::
  "FrameLayout \<Rightarrow> string list \<times> ExportContext \<Rightarrow> string list \<times> ExportContext" where
  "flexAlignUtilities f st =
     (let justifyClass =
            (case primaryAxisAlignItems f of
               PrimaryMIN \<Rightarrow> ''justify-start''
             | PrimaryMAX \<Rightarrow> ''justify-end''
             | PrimaryCENTER \<Rightarrow> ''justify-center''
             | SPACE_BETWEEN \<Rightarrow> ''justify-between''
             | PrimaryOther \<Rightarrow> ''justify-start'');
          itemsClass =
            (case counterAxisAlignItems f of
               CounterMIN \<Rightarrow> ''items-start''
             | CounterMAX \<Rightarrow> ''items-end''
             | CounterCENTER \<Rightarrow> ''items-center''
             | BASELINE \<Rightarrow> ''items-baseline''
             | CounterOther \<Rightarrow> ''items-stretch'')
      in addUtility itemsClass
           [''  align-items: '' @ mapCounterAxis (counterAxisAlignItems f) @ '';'']
           (addUtility justifyClass
              [''  justify-content: '' @ mapPrimaryAxis (primaryAxisAlignItems f) @ '';''] st))"

definition registerFlexUtilities ::
  "(rat \<Rightarrow> string) \<Rightarrow> SceneNode \<Rightarrow> ExportContext \<Rightarrow> string list \<times> ExportContext" where
  "registerFlexUtilities str frame context =
     (let f = layout (props frame)
      in flexAlignUtilities f
           (flexPaddingUtilities str f
              (flexGapUtility str f
                 (flexWrapUtilities str f
                    (flexDirectionUtilities f context)))))"

text \<open>A class name that starts with \<open>gap-\<close>.\<close>

definition isGapClass :: "string \<Rightarrow> bool" where
  "isGapClass cls = (take 4 cls = ''gap-'')"

text \<open>The frame of the specification's end-to-end example, with a given alignment.\<close>

definition exampleFlexFrame :: "PrimaryAlign \<Rightarrow> SceneNode" where
  "exampleFlexFrame a =
     SceneNode ((plainProps ''1:1'' ''Row'' FRAME)\<lparr> layout := plainLayout\<lparr> layoutMode := HORIZONTAL,
        itemSpacing := 8, paddingTop := 16, paddingRight := 16, paddingBottom := 16,
        paddingLeft := 16, primaryAxisAlignItems := a, counterAxisAlignItems := CounterMIN \<rparr> \<rparr>) []"

section \<open>The tree walker\<close>

subsection \<open>Exceptions, helpers and the host\<close>

text \<open>
  A thrown value is an \<^verbatim>\<open>Error\<close> with its message, or something else. A computation that
  may throw returns \<open>Inl\<close> of the thrown value.
\<close>

datatype exn = Error string | NonError

record WalkArgs =
  parentLayoutMode :: "LayoutMode option"
  parentFrame :: "SceneNode option"
  parentGroup :: "SceneNode option"
  outputFormat :: OutputFormat
  indent :: nat
  baseIndent :: nat
  positionContainer :: "SceneNode option"
  flattenedZIndex :: int

text \<open>
  The pure helpers of the source that compute inline styles and markup from paints,
  effects, fonts and geometry are parameters of the walker: functions of the node (a node
  is identified by its id) and of the arguments they read. A helper that stands for a
  block of statements outside every \<^verbatim>\<open>try\<close> may throw, since each read of a host property
  may. The parameters, with the source they stand for:
  \<^item> \<open>numberToString\<close>: how a template literal prints a number;
  \<^item> \<open>styleAttr\<close>: \<^verbatim>\<open>getStyleAttr\<close>; \<open>positionStyles\<close>:
    \<^verbatim>\<open>getPositionStylesRelativeToContainer\<close>; \<open>maskImageStyles\<close>: \<^verbatim>\<open>getMaskImageStyles\<close>;
  \<^item> \<open>sizingUtilities\<close>: \<^verbatim>\<open>registerSizingUtilities\<close>, as the utility classes it
    registers in order, the classes and the styles it returns;
  \<^item> \<open>frameInlineStyles\<close>, \<open>groupInlineStyles\<close>, \<open>textInlineStyles\<close>,
    \<open>rectInlineStyles\<close>, \<open>vectorBaseStyles\<close>: the inline style list of the branch;
  \<^item> \<open>textUtilitiesBefore\<close>, \<open>textUtilitiesAfter\<close>: the utility classes of a text node
    registered before and after its font family class;
  \<^item> \<open>fillsMixed\<close>: \<^verbatim>\<open>text.fills === figma.mixed\<close>; \<open>textFillStyles\<close>: the styles of the
    node-level text fill, for a node whose fills are a list of paints;
  \<^item> \<open>isBlurredShape\<close>: a solid fill and a layer blur; \<open>blurredShapeMarkup\<close>: the
    markup of that case, given the class name;
  \<^item> \<open>invisibleStrokesOnly\<close>: \<^verbatim>\<open>hasInvisibleStrokesOnly\<close>; \<open>vectorPlaceholderMarkup\<close>:
    the placeholder box of a vector node; \<open>vectorSvgMarkup\<close>: the inlined SVG, given
    the exported bytes and the id counter;
  \<^item> \<open>googleFontsImport\<close>: the font import of the stylesheet, from the families used;
  \<^item> \<open>documentMarkup\<close>: the HTML document or React component around the body.
\<close>

record Helpers =
  numberToString :: "rat \<Rightarrow> string"
  styleAttr :: "string list \<Rightarrow> OutputFormat \<Rightarrow> string"
  positionStyles :: "SceneNode \<Rightarrow> SceneNode \<Rightarrow> int \<Rightarrow> string list"
  maskImageStyles :: "SceneNode \<Rightarrow> string list"
  sizingUtilities ::
    "SceneNode \<Rightarrow> LayoutMode option \<Rightarrow> (string \<times> string list) list \<times> string list \<times> string list"
  frameInlineStyles :: "SceneNode \<Rightarrow> WalkArgs \<Rightarrow> string list \<Rightarrow> exn + string list"
  groupInlineStyles :: "SceneNode \<Rightarrow> WalkArgs \<Rightarrow> exn + string list"
  textUtilitiesBefore :: "SceneNode \<Rightarrow> (string \<times> string list) list"
  textUtilitiesAfter :: "SceneNode \<Rightarrow> (string \<times> string list) list"
  fillsMixed :: "SceneNode \<Rightarrow> bool"
  textFillStyles :: "SceneNode \<Rightarrow> exn + string list"
  textInlineStyles :: "SceneNode \<Rightarrow> WalkArgs \<Rightarrow> string list \<Rightarrow> string list \<Rightarrow> exn + string list"
  isBlurredShape :: "SceneNode \<Rightarrow> bool"
  blurredShapeMarkup :: "SceneNode \<Rightarrow> WalkArgs \<Rightarrow> string \<Rightarrow> exn + string"
  rectInlineStyles :: "SceneNode \<Rightarrow> WalkArgs \<Rightarrow> string list \<Rightarrow> exn + string list"
  vectorBaseStyles :: "SceneNode \<Rightarrow> WalkArgs \<Rightarrow> string list \<Rightarrow> exn + string list"
  invisibleStrokesOnly :: "SceneNode \<Rightarrow> bool"
  vectorPlaceholderMarkup :: "SceneNode \<Rightarrow> WalkArgs \<Rightarrow> string list \<Rightarrow> string list \<Rightarrow> exn + string"
  vectorSvgMarkup ::
    "SceneNode \<Rightarrow> WalkArgs \<Rightarrow> string list \<Rightarrow> string list \<Rightarrow> string \<Rightarrow> nat \<Rightarrow> exn + string"
  googleFontsImport :: "string list \<Rightarrow> string"
  documentMarkup :: "OutputFormat \<Rightarrow> string list \<Rightarrow> string \<Rightarrow> string"

text \<open>
  The host: the export of a vector node (\<^verbatim>\<open>node.exportAsync\<close>), the \<^verbatim>\<open>try\<close> block of a text
  node with mixed fills (\<^verbatim>\<open>getStyledTextSegments\<close> and the markup of its segments), loading
  the page, the first selected node, and \<^verbatim>\<open>localeCompare\<close>.
\<close>

record Host =
  exportAsync :: "SceneNode \<Rightarrow> exn + string"
  styledSegmentsMarkup :: "SceneNode \<Rightarrow> OutputFormat \<Rightarrow> exn + string"
  loadAsync :: "exn option"
  selection :: "SceneNode option"
  localeCompare :: "string \<Rightarrow> string \<Rightarrow> int"

subsection \<open>Small helpers of the walker\<close>

definition isMaskNode :: "SceneNode \<Rightarrow> bool" where
  "isMaskNode node = isMask (props node)"

definition isVectorNode :: "SceneNode \<Rightarrow> bool" where
  "isVectorNode node =
     (nodeType (props node) = VECTOR \<or> nodeType (props node) = LINE \<or>
      nodeType (props node) = ELLIPSE \<or> nodeType (props node) = POLYGON \<or>
      nodeType (props node) = STAR \<or> nodeType (props node) = BOOLEAN_OPERATION)"

text \<open>\<^verbatim>\<open>'  '.repeat(n)\<close>.\<close>

definition indentation :: "nat \<Rightarrow> string" where
  "indentation n = concat (replicate n ''  '')"

text \<open>A string is truthy when it is present and not empty.\<close>

definition truthy :: "string option \<Rightarrow> bool" where
  "truthy v = (case v of None \<Rightarrow> False | Some t \<Rightarrow> t \<noteq> [])"

definition toUpperChar :: "char \<Rightarrow> char" where
  "toUpperChar c =
     (if 97 \<le> (of_char c :: nat) \<and> (of_char c :: nat) \<le> 122 then char_of ((of_char c :: nat) - 32)
      else c)"

text \<open>The character class \<^verbatim>\<open>[a-zA-Z0-9]\<close>.\<close>

definition isAlnum :: "char \<Rightarrow> bool" where
  "isAlnum c =
     ((97 \<le> (of_char c :: nat) \<and> (of_char c :: nat) \<le> 122) \<or>
      (65 \<le> (of_char c :: nat) \<and> (of_char c :: nat) \<le> 90) \<or>
      (48 \<le> (of_char c :: nat) \<and> (of_char c :: nat) \<le> 57))"

text \<open>\<^verbatim>\<open>split(/[^a-zA-Z0-9]+/).filter(Boolean)\<close>: the maximal runs of letters and digits.\<close>

function alnumParts :: "string \<Rightarrow> string list" where
  "alnumParts [] = []"
| "alnumParts (c # cs) =
     (if isAlnum c
      then (c # takeWhile isAlnum cs) # alnumParts (dropWhile isAlnum cs)
      else alnumParts cs)"
  by pat_completeness auto
termination
  by (relation "measure length") (auto simp: length_dropWhile_le less_Suc_eq_le)

definition capitalize :: "string \<Rightarrow> string" where
  "capitalize part = (case part of [] \<Rightarrow> [] | c # cs \<Rightarrow> toUpperChar c # toLowerCase cs)"

definition toPascalCase :: "string \<Rightarrow> string" where
  "toPascalCase nm = concat (map capitalize (alnumParts (trim nm)))"

text \<open>\<^verbatim>\<open>id.replace(':', '-')\<close> replaces the first colon only.\<close>

fun replaceFirstColon :: "string \<Rightarrow> string" where
  "replaceFirstColon [] = []"
| "replaceFirstColon (c # cs) = (if c = CHR '':'' then CHR ''-'' # cs else c # replaceFirstColon cs)"

text \<open>
  \<^verbatim>\<open>toPascalCase(node.name) || sanitizeName(node.name) || `node-${node.id.replace(':', '-')}`\<close>
\<close>

definition pascalName :: "SceneNode \<Rightarrow> string" where
  "pascalName node =
     (if toPascalCase (nodeName (props node)) \<noteq> [] then toPascalCase (nodeName (props node))
      else if sanitizeName (nodeName (props node)) \<noteq> [] then sanitizeName (nodeName (props node))
      else ''node-'' @ replaceFirstColon (nodeId (props node)))"

definition escapeQuotes :: "string \<Rightarrow> string" where
  "escapeQuotes s = concat (map (\<lambda>c. if c = CHR 0x22 then ''&quot;'' else [c]) s)"

text \<open>\<^verbatim>\<open>getDataLayerAttr\<close>, with the mask attributes the walker appends for a mask node.\<close>

definition dataLayerAttr :: "SceneNode \<Rightarrow> string" where
  "dataLayerAttr node =
     ''data-layer='' @ [CHR 0x22] @ escapeQuotes (nodeName (props node)) @ [CHR 0x22] @ '' '' @
     (if isMaskNode node
      then '' data-figma-mask='' @ [CHR 0x22] @ ''true'' @ [CHR 0x22] @
           (if truthy (maskType (props node))
            then '' data-figma-mask-type='' @ [CHR 0x22] @ the (maskType (props node)) @ [CHR 0x22]
            else [])
      else [])"

definition getClassAttr :: "string list \<Rightarrow> OutputFormat \<Rightarrow> string" where
  "getClassAttr classes format =
     (let joined = trim (joinWith '' '' (filter (\<lambda>c. c \<noteq> []) classes))
      in if joined = [] then []
         else (if format = React then ''className='' else ''class='') @
              [CHR 0x22] @ joined @ [CHR 0x22] @ '' '')"

text \<open>Removing repeated class names, the first occurrence staying.\<close>

fun dedupe :: "string list \<Rightarrow> string list \<Rightarrow> string list" where
  "dedupe seen [] = []"
| "dedupe seen (c # cs) = (if c \<in> set seen then dedupe seen cs else c # dedupe (c # seen) cs)"

text \<open>
  \<^verbatim>\<open>getClipPathFromMaskNode\<close>: \<open>None\<close> is \<^verbatim>\<open>null\<close>, the answer for a shape it does not
  support.
\<close>

definition getClipPathFromMaskNode :: "SceneNode \<Rightarrow> string option" where
  "getClipPathFromMaskNode node =
     (let t = nodeType (props node); r = cornerRadius (props node)
      in if t = RECTANGLE then
           (case r of
              Radius v \<Rightarrow>
                if v > 0 then Some (''inset(0 round '' @ showInt (roundDim v) @ ''px)'')
                else Some ''inset(0)''
            | MixedRadius \<Rightarrow>
                (case cornerRadii (props node) of
                   Some (rtl, rtr, rbr, rbl) \<Rightarrow>
                     if roundDim rtl \<noteq> 0 \<or> roundDim rtr \<noteq> 0 \<or> roundDim rbr \<noteq> 0 \<or> roundDim rbl \<noteq> 0
                     then Some (''inset(0 round '' @ showInt (roundDim rtl) @ ''px '' @
                                showInt (roundDim rtr) @ ''px '' @ showInt (roundDim rbr) @ ''px '' @
                                showInt (roundDim rbl) @ ''px)'')
                     else Some ''inset(0)''
                 | None \<Rightarrow> Some ''inset(0)'')
            | NoRadius \<Rightarrow> Some ''inset(0)'')
         else if t = ELLIPSE then Some ''ellipse(50% 50% at 50% 50%)''
         else if t = FRAME \<or> t = GROUP \<or> t = COMPONENT \<or> t = INSTANCE then
           (case r of
              Radius v \<Rightarrow>
                if v > 0 then Some (''inset(0 round '' @ showInt (roundDim v) @ ''px)'')
                else Some ''inset(0)''
            | _ \<Rightarrow> Some ''inset(0)'')
         else None)"

text \<open>Registering a list of utility classes in order.\<close>

definition registerAll :: "(string \<times> string list) list \<Rightarrow> ExportContext \<Rightarrow> ExportContext" where
  "registerAll regs context = foldl (\<lambda>c r. registerUtilityClass (fst r) (snd r) c) context regs"

text \<open>\<^verbatim>\<open>registerGridUtilities\<close>; an absent row or column count reads as 1.\<close>

definition registerGridUtilities ::
  "(rat \<Rightarrow> string) \<Rightarrow> SceneNode \<Rightarrow> ExportContext \<Rightarrow> string list \<times> ExportContext" where
  "registerGridUtilities str frame context =
     (let f = layout (props frame)
      in if layoutMode f \<noteq> GRID then ([], context)
         else
           (let rows = (case gridRowCount f of Some n \<Rightarrow> n | None \<Rightarrow> 1);
                cols = (case gridColumnCount f of Some n \<Rightarrow> n | None \<Rightarrow> 1);
                rowsClass = ''grid-rows-'' @ showNat rows;
                colsClass = ''grid-cols-'' @ showNat cols;
                gapClass = ''gap-'' @ formatNegativeClassValue (itemSpacing f)
            in addUtility gapClass [''  gap: '' @ str (itemSpacing f) @ ''px;'']
                 (addUtility colsClass
                    [''  grid-template-columns: repeat('' @ showNat cols @ '', minmax(0, 1fr));'']
                    (addUtility rowsClass
                       [''  grid-template-rows: repeat('' @ showNat rows @ '', minmax(0, 1fr));'']
                       (addUtility ''grid'' [''  display: grid;''] ([], context))))))"


subsection \<open>Mask runs\<close>

type_synonym WalkResult = "exn + (string \<times> ExportContext)"

type_synonym Runner = "WalkArgs \<Rightarrow> ExportContext \<Rightarrow> exn + (string \<times> ExportContext)"

text \<open>
  The walker calls itself on the children of a node, and on the children of a group
  child that it flattens. In the model a child comes with the walker applied to it (its
  runner), so that the loops over the children are defined before the walker.
\<close>

type_synonym Kid = "SceneNode \<times> Runner"

text \<open>\<^verbatim>\<open>while (k < children.length && !isMaskNode(children[k])) k++;\<close>\<close>

function nextMask :: "SceneNode list \<Rightarrow> nat \<Rightarrow> nat" where
  "nextMask nodes k =
     (if k < length nodes \<and> \<not> isMaskNode (nodes ! k) then nextMask nodes (Suc k) else k)"
  by pat_completeness auto
termination
  by (relation "measure (\<lambda>(nodes, k). length nodes - k)") auto

declare nextMask.simps [simp del]

text \<open>
  The source has the mask-run loop three times: over the children of a frame, over the
  children of a group that a free-form frame flattens, and over the children of a group.
  The three differ in the arguments of the recursive calls, in the z-index of the wrapper
  and in the container the wrapper is positioned in; a \<open>LoopEnv\<close> holds these.
\<close>

record LoopEnv =
  childArgs :: "nat \<Rightarrow> WalkArgs"
  maskedArgs :: "SceneNode \<Rightarrow> int \<Rightarrow> WalkArgs"
  wrapperZ :: "nat \<Rightarrow> int"
  wrapperContainer :: SceneNode
  wrapperIndent :: string
  loopFormat :: OutputFormat

definition wrapperStyles :: "Helpers \<Rightarrow> LoopEnv \<Rightarrow> SceneNode \<Rightarrow> string \<Rightarrow> nat \<Rightarrow> string list" where
  "wrapperStyles H E child clipPath i =
     [''width: '' @ showInt (roundDim (width (props child))) @ ''px'',
      ''height: '' @ showInt (roundDim (height (props child))) @ ''px'',
      ''position: absolute'',
      ''overflow: hidden'',
      ''clip-path: '' @ clipPath] @
     maskImageStyles H child @
     positionStyles H child (wrapperContainer E) (wrapperZ E i)"

definition wrapperOpen :: "Helpers \<Rightarrow> LoopEnv \<Rightarrow> SceneNode \<Rightarrow> string \<Rightarrow> nat \<Rightarrow> string" where
  "wrapperOpen H E child clipPath i =
     newline @ wrapperIndent E @ ''<div '' @ getClassAttr [] (loopFormat E) @
     styleAttr H (wrapperStyles H E child clipPath i) (loopFormat E) @ ''>''"

definition wrapperClose :: "LoopEnv \<Rightarrow> string" where
  "wrapperClose E = newline @ wrapperIndent E @ ''</div>''"

text \<open>
  \<^verbatim>\<open>for (let m = i + 1; m < k; m++) html += await run(children[m], child, m - i - 1);\<close>
  over the list of the indices \<open>m\<close>.
\<close>

fun runMasked :: "LoopEnv \<Rightarrow> Kid list \<Rightarrow> nat \<Rightarrow> nat list \<Rightarrow> string \<Rightarrow> ExportContext \<Rightarrow> WalkResult" where
  "runMasked E kids i [] html context = Inr (html, context)"
| "runMasked E kids i (m # ms) html context =
     (case snd (kids ! m) (maskedArgs E (fst (kids ! i)) (int (m - i - 1))) context of
        Inl e \<Rightarrow> Inl e
      | Inr (h, context') \<Rightarrow> runMasked E kids i ms (html @ h) context')"

text \<open>
  The branch for a mask node at index \<open>i\<close>, the next mask (or the end) being at \<open>k\<close>: the
  mask node is emitted; if it has a clip path and siblings follow before \<open>k\<close>, they are
  emitted inside the wrapper. Nothing else is emitted for the siblings before \<open>k\<close>.
\<close>

definition maskRun ::
  "Helpers \<Rightarrow> LoopEnv \<Rightarrow> Kid list \<Rightarrow> nat \<Rightarrow> nat \<Rightarrow> string \<Rightarrow> ExportContext \<Rightarrow> WalkResult" where
  "maskRun H E kids i k html context =
     (let child = fst (kids ! i);
          clipPath = getClipPathFromMaskNode child;
          maskedCount = k - i - 1
      in case snd (kids ! i) (childArgs E i) context of
           Inl e \<Rightarrow> Inl e
         | Inr (h, context1) \<Rightarrow>
             if truthy clipPath \<and> maskedCount > 0 then
               (case runMasked E kids i [Suc i..<k]
                       (html @ h @ wrapperOpen H E child (the clipPath) i) context1 of
                  Inl e \<Rightarrow> Inl e
                | Inr (html2, context2) \<Rightarrow> Inr (html2 @ wrapperClose E, context2))
             else Inr (html @ h, context1))"

function maskRunLoop ::
  "Helpers \<Rightarrow> LoopEnv \<Rightarrow> Kid list \<Rightarrow> nat \<Rightarrow> string \<Rightarrow> ExportContext \<Rightarrow> WalkResult" where
  "maskRunLoop H E kids i html context =
     (if i < length kids then
        (if isMaskNode (fst (kids ! i)) then
           (case maskRun H E kids i (nextMask (map fst kids) (Suc i)) html context of
              Inl e \<Rightarrow> Inl e
            | Inr (html', context') \<Rightarrow>
                maskRunLoop H E kids (nextMask (map fst kids) (Suc i)) html' context')
         else
           (case snd (kids ! i) (childArgs E i) context of
              Inl e \<Rightarrow> Inl e
            | Inr (h, context') \<Rightarrow> maskRunLoop H E kids (Suc i) (html @ h) context'))
      else Inr (html, context))"
  by pat_completeness auto
termination
proof (relation "measure (\<lambda>(H, E, kids, i, html, context). length kids - i)")
  have ge: "k \<le> nextMask nodes k" for nodes k
  proof (induction nodes k rule: nextMask.induct)
    case (1 nodes k)
    then show ?case by (subst nextMask.simps) auto
  qed
  fix H :: Helpers and E :: LoopEnv and kids :: "Kid list" and i :: nat
    and html :: string and ctx :: ExportContext and x y
  assume "i < length kids"
  with ge [of "Suc i" "map fst kids"]
  show "((H, E, kids, nextMask (map fst kids) (Suc i), x, y), H, E, kids, i, html, ctx)
        \<in> measure (\<lambda>(H, E, kids, i, html, context). length kids - i)"
    by simp
qed auto

declare maskRunLoop.simps [simp del]

subsection \<open>The children of a frame\<close>

text \<open>
  A child of a frame comes with its runner and with its own children and their runners,
  which the loop needs when it flattens a group.
\<close>

type_synonym FrameKid = "SceneNode \<times> Runner \<times> Kid list"

definition stripKid :: "FrameKid \<Rightarrow> Kid" where
  "stripKid kid = (fst kid, fst (snd kid))"

text \<open>The arguments of \<^verbatim>\<open>runFrameChild(c, posContainer, z)\<close>.\<close>

definition frameChildArgs :: "SceneNode \<Rightarrow> WalkArgs \<Rightarrow> SceneNode option \<Rightarrow> int \<Rightarrow> WalkArgs" where
  "frameChildArgs frame args posContainer z =
     \<lparr> parentLayoutMode =
         (if layoutMode (layout (props frame)) = NONE then None
          else Some (layoutMode (layout (props frame)))),
       parentFrame = (if layoutMode (layout (props frame)) = NONE then None else Some frame),
       parentGroup = (if layoutMode (layout (props frame)) = NONE then Some frame else None),
       outputFormat = outputFormat args,
       indent = indent args + 1,
       baseIndent = baseIndent args,
       positionContainer = posContainer,
       flattenedZIndex = z \<rparr>"

definition frameEnv :: "SceneNode \<Rightarrow> WalkArgs \<Rightarrow> LoopEnv" where
  "frameEnv frame args =
     \<lparr> childArgs = (\<lambda>i. frameChildArgs frame args None 0),
       maskedArgs = (\<lambda>maskNode z. frameChildArgs frame args (Some maskNode) z),
       wrapperZ = (\<lambda>i. let idx = int i + 1
                        in if itemReverseZIndex (layout (props frame))
                           then int (length (children frame)) - 1 - idx else idx + 1),
       wrapperContainer = frame,
       wrapperIndent = indentation (baseIndent args + indent args + 1),
       loopFormat = outputFormat args \<rparr>"

definition flattenedEnv :: "SceneNode \<Rightarrow> WalkArgs \<Rightarrow> LoopEnv" where
  "flattenedEnv frame args =
     \<lparr> childArgs = (\<lambda>j. frameChildArgs frame args (Some frame) (int j)),
       maskedArgs = (\<lambda>maskNode z. frameChildArgs frame args (Some maskNode) z),
       wrapperZ = (\<lambda>j. int j + 1),
       wrapperContainer = frame,
       wrapperIndent = indentation (baseIndent args + indent args + 1),
       loopFormat = outputFormat args \<rparr>"

definition groupEnv :: "SceneNode \<Rightarrow> WalkArgs \<Rightarrow> LoopEnv" where
  "groupEnv grp args =
     \<lparr> childArgs = (\<lambda>i. \<lparr> parentLayoutMode = None, parentFrame = None, parentGroup = Some grp,
                          outputFormat = outputFormat args, indent = indent args + 1,
                          baseIndent = baseIndent args, positionContainer = None,
                          flattenedZIndex = 0 \<rparr>),
       maskedArgs = (\<lambda>maskNode z. \<lparr> parentLayoutMode = None, parentFrame = None, parentGroup = Some grp,
                          outputFormat = outputFormat args, indent = indent args + 1,
                          baseIndent = baseIndent args, positionContainer = Some maskNode,
                          flattenedZIndex = z \<rparr>),
       wrapperZ = (\<lambda>i. int i + 1),
       wrapperContainer = grp,
       wrapperIndent = indentation (baseIndent args + indent args + 1),
       loopFormat = outputFormat args \<rparr>"

text \<open>A group child of a free-form frame is flattened: its children are emitted in its place.\<close>

definition isFlattened :: "SceneNode \<Rightarrow> SceneNode \<Rightarrow> bool" where
  "isFlattened frame child =
     (layoutMode (layout (props frame)) = NONE \<and>
      (nodeType (props child) = GROUP \<or> nodeType (props child) = TRANSFORM_GROUP))"

function frameChildrenLoop ::
  "Helpers \<Rightarrow> SceneNode \<Rightarrow> WalkArgs \<Rightarrow> FrameKid list \<Rightarrow> nat \<Rightarrow> string \<Rightarrow> ExportContext \<Rightarrow> WalkResult" where
  "frameChildrenLoop H frame args kids i html context =
     (if i < length kids then
        (if isFlattened frame (fst (kids ! i)) then
           (case maskRunLoop H (flattenedEnv frame args) (snd (snd (kids ! i))) 0 html context of
              Inl e \<Rightarrow> Inl e
            | Inr (html', context') \<Rightarrow> frameChildrenLoop H frame args kids (Suc i) html' context')
         else if isMaskNode (fst (kids ! i)) then
           (case maskRun H (frameEnv frame args) (map stripKid kids) i
                   (nextMask (map fst kids) (Suc i)) html context of
              Inl e \<Rightarrow> Inl e
            | Inr (html', context') \<Rightarrow>
                frameChildrenLoop H frame args kids (nextMask (map fst kids) (Suc i)) html' context')
         else
           (case fst (snd (kids ! i)) (frameChildArgs frame args None 0) context of
              Inl e \<Rightarrow> Inl e
            | Inr (h, context') \<Rightarrow> frameChildrenLoop H frame args kids (Suc i) (html @ h) context'))
      else Inr (html, context))"
  by pat_completeness auto
termination
proof (relation "measure (\<lambda>(H, frame, args, kids, i, html, context). length kids - i)")
  have ge: "k \<le> nextMask nodes k" for nodes k
  proof (induction nodes k rule: nextMask.induct)
    case (1 nodes k)
    then show ?case by (subst nextMask.simps) auto
  qed
  fix H :: Helpers and frame :: SceneNode and args :: WalkArgs and kids :: "FrameKid list"
    and i :: nat and html :: string and ctx :: ExportContext and x y
  assume "i < length kids"
  with ge [of "Suc i" "map fst kids"]
  show "((H, frame, args, kids, nextMask (map fst kids) (Suc i), x, y),
          H, frame, args, kids, i, html, ctx)
        \<in> measure (\<lambda>(H, frame, args, kids, i, html, context). length kids - i)"
    by simp
qed auto

declare frameChildrenLoop.simps [simp del]

subsection \<open>The branches of the walker\<close>

definition openPrefix :: "WalkArgs \<Rightarrow> string" where
  "openPrefix args =
     (if indent args = 0 \<and> baseIndent args = 0 then [] else newline) @
     indentation (baseIndent args + indent args)"

definition closePrefix :: "WalkArgs \<Rightarrow> string" where
  "closePrefix args = newline @ indentation (baseIndent args + indent args)"

text \<open>\<^verbatim>\<open>context.fontFamiliesUsed.add(family)\<close> on a set that keeps insertion order.\<close>

definition addFontFamily :: "string \<Rightarrow> ExportContext \<Rightarrow> ExportContext" where
  "addFontFamily family context =
     (if family \<in> set (fontFamiliesUsed context) then context
      else context\<lparr> fontFamiliesUsed := fontFamiliesUsed context @ [family] \<rparr>)"

definition frameBranch ::
  "Helpers \<Rightarrow> SceneNode \<Rightarrow> FrameKid list \<Rightarrow> WalkArgs \<Rightarrow> ExportContext \<Rightarrow> WalkResult" where
  "frameBranch H frame kids args context =
     (let p = props frame; f = layout p
      in if height p < 1 \<and> roundPx (opacity p) < 1 / 100 \<and> children frame = []
         then Inr ([], context)
         else
           (let st1 = (if layoutMode f = GRID
                       then registerGridUtilities (numberToString H) frame context
                       else if layoutMode f \<noteq> NONE
                       then registerFlexUtilities (numberToString H) frame context
                       else ([], context));
                sizing = sizingUtilities H frame (parentLayoutMode args);
                context2 = registerAll (fst sizing) (snd st1);
                classes2 = fst st1 @ fst (snd sizing)
            in case frameInlineStyles H frame args (snd (snd sizing)) of
                 Inl e \<Rightarrow> Inl e
               | Inr inlineStyles \<Rightarrow>
                   (let styleLines = [] :: string list;
                        baseName = pascalName frame;
                        st3 = (if styleLines \<noteq> []
                               then (classes2 @ [fst (getClassForStyle baseName styleLines context2)],
                                     snd (getClassForStyle baseName styleLines context2))
                               else (classes2, context2));
                        st4 = (if fst st3 = []
                               then ([baseName],
                                     (let used = (snd st3)\<lparr> usedBaseClasses :=
                                                   insert baseName (usedBaseClasses (snd st3)) \<rparr>
                                      in if baseName = ''frame''
                                         then registerUtilityClass baseName [''  display: block;''] used
                                         else used))
                               else st3);
                        deduped = dedupe [] (fst st4);
                        hasFlexDir = (''flex-col'' \<in> set deduped \<or> ''flex-row'' \<in> set deduped);
                        finalClasses = (if hasFlexDir \<and> ''flex'' \<notin> set deduped
                                        then ''flex'' # deduped else deduped);
                        html = openPrefix args @ ''<div '' @ dataLayerAttr frame @
                               getClassAttr finalClasses (outputFormat args) @
                               styleAttr H inlineStyles (outputFormat args) @ ''>''
                    in case frameChildrenLoop H frame args kids 0 html (snd st4) of
                         Inl e \<Rightarrow> Inl e
                       | Inr (html', context') \<Rightarrow>
                           Inr (html' @ closePrefix args @ ''</div>'', context'))))"

definition groupBranch ::
  "Helpers \<Rightarrow> SceneNode \<Rightarrow> Kid list \<Rightarrow> WalkArgs \<Rightarrow> ExportContext \<Rightarrow> WalkResult" where
  "groupBranch H grp kids args context =
     (let p = props grp
      in if height p < 1 \<and> roundPx (opacity p) < 1 / 100 \<and> children grp = []
         then Inr ([], context)
         else
           (case groupInlineStyles H grp args of
              Inl e \<Rightarrow> Inl e
            | Inr styles \<Rightarrow>
                (let classes0 = [] :: string list;
                     baseName = pascalName grp;
                     st1 = (if classes0 = []
                            then ([''group'', baseName],
                                  registerUtilityClass ''group'' [''  display: block;'']
                                    (context\<lparr> usedBaseClasses :=
                                        insert baseName (usedBaseClasses context) \<rparr>))
                            else (baseName # classes0, context));
                     finalClasses = dedupe [] (fst st1);
                     inlineStyles = styles @ [''overflow: visible''];
                     html = openPrefix args @ ''<div '' @ dataLayerAttr grp @
                            getClassAttr finalClasses (outputFormat args) @
                            styleAttr H inlineStyles (outputFormat args) @ ''>''
                 in case maskRunLoop H (groupEnv grp args) kids 0 html (snd st1) of
                      Inl e \<Rightarrow> Inl e
                    | Inr (html', context') \<Rightarrow>
                        Inr (html' @ closePrefix args @ ''</div>'', context'))))"

text \<open>
  The text branch. When the fills are mixed, the \<^verbatim>\<open>try\<close> block asks the host for the
  styled segments; its \<^verbatim>\<open>catch\<close> falls back to the node-level fill, as the \<^verbatim>\<open>else\<close> branch
  does.
\<close>

text \<open>
  The \<^verbatim>\<open>catch\<close> of the text branch runs only under \<^verbatim>\<open>text.fills === figma.mixed\<close>. There
  \<^verbatim>\<open>getSolidTextFill(text)\<close> returns \<^verbatim>\<open>null\<close>, so \<^verbatim>\<open>getFillStyleFromPaints\<close> is called on
  \<^verbatim>\<open>figma.mixed\<close>, a symbol, and its first statement \<^verbatim>\<open>paints.find(...)\<close> throws this
  \<^verbatim>\<open>TypeError\<close> (the text of the message is the engine's).
\<close>

definition mixedFillsTypeError :: exn where
  "mixedFillsTypeError = Error ''paints.find is not a function''"

definition textBranch ::
  "Helpers \<Rightarrow> Host \<Rightarrow> SceneNode \<Rightarrow> WalkArgs \<Rightarrow> ExportContext \<Rightarrow> WalkResult" where
  "textBranch H host text args context =
     (let regsBefore = textUtilitiesBefore H text;
          st1 = (map fst regsBefore, registerAll regsBefore context);
          st2 = (case fontFamily (props text) of
                   None \<Rightarrow> st1
                 | Some family \<Rightarrow>
                     if sanitizeName family \<noteq> []
                     then addUtility (''fontfam-'' @ sanitizeName family)
                            [''  font-family: '' @ [CHR 0x22] @ family @ [CHR 0x22] @ '';'']
                            (fst st1, addFontFamily family (snd st1))
                     else st1);
          regsAfter = textUtilitiesAfter H text;
          st3 = (fst st2 @ map fst regsAfter, registerAll regsAfter (snd st2));
          sizing = sizingUtilities H text (parentLayoutMode args);
          st4 = (fst st3 @ fst (snd sizing), registerAll (fst sizing) (snd st3));
          plainContent = (if outputFormat args = React then escapeJsxText (characters (props text))
                          else escapeHtml (characters (props text)));
          content = (if fillsMixed H text
                     then (case styledSegmentsMarkup host text (outputFormat args) of
                             Inr markup \<Rightarrow> Inr (markup, [])
                           | Inl caught \<Rightarrow> Inl mixedFillsTypeError)
                     else (case textFillStyles H text of
                             Inl e \<Rightarrow> Inl e
                           | Inr fillStyles \<Rightarrow> Inr (plainContent, fillStyles)))
      in case content of
           Inl e \<Rightarrow> Inl e
         | Inr (textContent, fillStyles) \<Rightarrow>
             (case textInlineStyles H text args (snd (snd sizing)) fillStyles of
                Inl e \<Rightarrow> Inl e
              | Inr inlineStyles \<Rightarrow>
                  (let st5 = (if fst st4 = [] then addUtility ''text'' [] st4 else st4)
                   in Inr (openPrefix args @ ''<p '' @ dataLayerAttr text @
                           getClassAttr (fst st5) (outputFormat args) @
                           styleAttr H inlineStyles (outputFormat args) @ ''>'' @
                           textContent @ ''</p>'', snd st5))))"

text \<open>A rectangle or ellipse with a solid fill and a layer blur: a fresh class name, no rule.\<close>

definition blurredBranch ::
  "Helpers \<Rightarrow> SceneNode \<Rightarrow> WalkArgs \<Rightarrow> ExportContext \<Rightarrow> WalkResult" where
  "blurredBranch H node args context =
     (case blurredShapeMarkup H node args (fst (getUniqueClassName (pascalName node) context)) of
        Inl e \<Rightarrow> Inl e
      | Inr html \<Rightarrow> Inr (html, snd (getUniqueClassName (pascalName node) context)))"

definition rectangleBranch ::
  "Helpers \<Rightarrow> SceneNode \<Rightarrow> WalkArgs \<Rightarrow> ExportContext \<Rightarrow> WalkResult" where
  "rectangleBranch H rect args context =
     (let p = props rect
      in if height p < 1 \<and> roundPx (opacity p) < 1 / 100 then Inr ([], context)
         else if isBlurredShape H rect then blurredBranch H rect args context
         else
           (let styleLines =
                  (case cornerRadius p of
                     MixedRadius \<Rightarrow> []
                   | Radius r \<Rightarrow> [''  border-radius: '' @ showInt (roundDim r) @ ''px;'']
                   | NoRadius \<Rightarrow> [''  border-radius: NaNpx;'']);
                interned = getClassForStyle (pascalName rect) styleLines context;
                sizing = sizingUtilities H rect (parentLayoutMode args);
                context2 = registerAll (fst sizing) (snd interned);
                classes = fst interned # fst (snd sizing)
            in case rectInlineStyles H rect args (snd (snd sizing)) of
                 Inl e \<Rightarrow> Inl e
               | Inr inlineStyles \<Rightarrow>
                   Inr (openPrefix args @ ''<div '' @ dataLayerAttr rect @
                        getClassAttr classes (outputFormat args) @
                        styleAttr H inlineStyles (outputFormat args) @ ''></div>'', context2)))"

text \<open>
  The vector branch. The \<^verbatim>\<open>try\<close> block exports the node, advances the id counter and
  builds the inlined SVG; the \<^verbatim>\<open>catch\<close> block emits the placeholder box, with the context
  as the \<^verbatim>\<open>try\<close> block left it.
\<close>

definition vectorBranch ::
  "Helpers \<Rightarrow> Host \<Rightarrow> SceneNode \<Rightarrow> WalkArgs \<Rightarrow> ExportContext \<Rightarrow> WalkResult" where
  "vectorBranch H host node args context =
     (let sizing = sizingUtilities H node (parentLayoutMode args);
          context1 = registerAll (fst sizing) context;
          classes = fst (snd sizing)
      in case vectorBaseStyles H node args (snd (snd sizing)) of
           Inl e \<Rightarrow> Inl e
         | Inr baseStyles \<Rightarrow>
             if invisibleStrokesOnly H node then
               (case vectorPlaceholderMarkup H node args classes baseStyles of
                  Inl e \<Rightarrow> Inl e
                | Inr html \<Rightarrow> Inr (html, context1))
             else
               (case exportAsync host node of
                  Inl caught \<Rightarrow>
                    (case vectorPlaceholderMarkup H node args classes baseStyles of
                       Inl e \<Rightarrow> Inl e
                     | Inr html \<Rightarrow> Inr (html, context1))
                | Inr svgBytes \<Rightarrow>
                    (let context2 = context1\<lparr> svgIdCounter := svgIdCounter context1 + 1 \<rparr>
                     in case vectorSvgMarkup H node args classes baseStyles svgBytes
                               (svgIdCounter context2) of
                          Inr html \<Rightarrow> Inr (html, context2)
                        | Inl caught \<Rightarrow>
                            (case vectorPlaceholderMarkup H node args classes baseStyles of
                               Inl e \<Rightarrow> Inl e
                             | Inr html \<Rightarrow> Inr (html, context2)))))"

text \<open>
  The branches by node type. The source tests the types one after another; they exclude
  each other, except that an ellipse without the blurred case falls through to the
  vector branch.
\<close>

definition nodeBranch ::
  "Helpers \<Rightarrow> Host \<Rightarrow> SceneNode \<Rightarrow> FrameKid list \<Rightarrow> WalkArgs \<Rightarrow> ExportContext \<Rightarrow> WalkResult" where
  "nodeBranch H host node kids args context =
     (case nodeType (props node) of
        FRAME \<Rightarrow> frameBranch H node kids args context
      | COMPONENT \<Rightarrow> frameBranch H node kids args context
      | INSTANCE \<Rightarrow> frameBranch H node kids args context
      | GROUP \<Rightarrow> groupBranch H node (map stripKid kids) args context
      | TRANSFORM_GROUP \<Rightarrow> groupBranch H node (map stripKid kids) args context
      | TEXT \<Rightarrow> textBranch H host node args context
      | RECTANGLE \<Rightarrow> rectangleBranch H node args context
      | ELLIPSE \<Rightarrow>
          (if isBlurredShape H node then blurredBranch H node args context
           else vectorBranch H host node args context)
      | OTHER_NODE \<Rightarrow> Inr ([], context)
      | _ \<Rightarrow> vectorBranch H host node args context)"

subsection \<open>The walker\<close>

function nodeToHtmlCss :: "Helpers \<Rightarrow> Host \<Rightarrow> SceneNode \<Rightarrow> Runner" where
  "nodeToHtmlCss H host (SceneNode p cs) =
     (\<lambda>args context.
        if \<not> visible p then Inr ([], context)
        else nodeBranch H host (SceneNode p cs)
               (map (\<lambda>c. (c, nodeToHtmlCss H host c,
                           map (\<lambda>g. (g, nodeToHtmlCss H host g)) (children c))) cs)
               args context)"
  by pat_completeness auto
termination
proof (relation "measure (\<lambda>(H, host, node). size node)")
  have child: "size g < size c" if "g \<in> set (children c)" for g c
  proof (cases c)
    case (SceneNode q gs)
    with that have "g \<in> set gs" by simp
    then have "size g < Suc (size_list size gs)"
      by (induction gs) auto
    with SceneNode show ?thesis by simp
  qed
  fix H :: Helpers and host :: Host and p :: NodeProps and cs :: "SceneNode list" and c g
  assume c: "c \<in> set cs"
  with child [of c "SceneNode p cs"]
  show "((H, host, c), H, host, SceneNode p cs) \<in> measure (\<lambda>(H, host, node). size node)"
    by simp
  assume "g \<in> set (children c)"
  with child [of g c] child [of c "SceneNode p cs"] c
  show "((H, host, g), H, host, SceneNode p cs) \<in> measure (\<lambda>(H, host, node). size node)"
    by simp
qed simp

declare nodeToHtmlCss.simps [simp del]

subsection \<open>The entry points\<close>

record ExportResult =
  resultFormat :: OutputFormat
  resultMarkup :: string
  resultCss :: string
  frameWidth :: rat
  frameHeight :: rat

definition rootArgs :: "OutputFormat \<Rightarrow> WalkArgs" where
  "rootArgs format =
     \<lparr> parentLayoutMode = None, parentFrame = None, parentGroup = None, outputFormat = format,
       indent = 0, baseIndent = (if format = Html then 2 else 0), positionContainer = None,
       flattenedZIndex = 0 \<rparr>"

definition exportSelection :: "Helpers \<Rightarrow> Host \<Rightarrow> OutputFormat \<Rightarrow> exn + ExportResult" where
  "exportSelection H host format =
     (case loadAsync host of
        Some e \<Rightarrow> Inl e
      | None \<Rightarrow>
          (case selection host of
             None \<Rightarrow> Inl (Error ''Select a frame, component, instance, or group.'')
           | Some rootNode \<Rightarrow>
               if nodeType (props rootNode) \<notin> {FRAME, GROUP, TRANSFORM_GROUP, COMPONENT, INSTANCE}
               then Inl (Error ''Select a frame, component, instance, or group.'')
               else
                 (case nodeToHtmlCss H host rootNode (rootArgs format) freshContext of
                    Inl e \<Rightarrow> Inl e
                  | Inr (bodyContent, context) \<Rightarrow>
                      Inr \<lparr> resultFormat = format,
                            resultMarkup = documentMarkup H format (fontFamiliesUsed context) bodyContent,
                            resultCss = stylesheetCss (localeCompare host) format
                              (googleFontsImport H (fontFamiliesUsed context)) (styleEntries context),
                            frameWidth = width (props rootNode),
                            frameHeight = height (props rootNode) \<rparr>)))"

datatype ExportMessage = Export "OutputFormat option" | Cancel

datatype UiEffect = PostExportResult ExportResult | PostError string | ClosePlugin

text \<open>\<^verbatim>\<open>error instanceof Error ? error.message : 'Export failed.'\<close>\<close>

definition errorMessage :: "exn \<Rightarrow> string" where
  "errorMessage e = (case e of Error message \<Rightarrow> message | NonError \<Rightarrow> ''Export failed.'')"

text \<open>
  \<^verbatim>\<open>figma.ui.onmessage\<close>: what the handler does with a message, as the list of its effects
  on the UI. The \<^verbatim>\<open>try\<close> around \<^verbatim>\<open>exportSelection\<close> is the only handler above the walker.
\<close>

definition onmessage :: "Helpers \<Rightarrow> Host \<Rightarrow> ExportMessage \<Rightarrow> UiEffect list" where
  "onmessage H host msg =
     (case msg of
        Export requested \<Rightarrow>
          (let format = (case requested of Some f \<Rightarrow> f | None \<Rightarrow> Html)
           in case exportSelection H host format of
                Inr result \<Rightarrow> [PostExportResult result]
              | Inl error \<Rightarrow> [PostError (errorMessage error)])
      | Cancel \<Rightarrow> [ClosePlugin])"

subsection \<open>Mask runs, as the specification words them\<close>




subsection \<open>Which exceptions reach the caller\<close>

text \<open>
  The exceptions that can leave the walker: the \<^verbatim>\<open>TypeError\<close> of the \<^verbatim>\<open>catch\<close> in the text
  branch, and what a helper outside every \<^verbatim>\<open>try\<close> block can throw. The inlined SVG
  markup is built inside the \<^verbatim>\<open>try\<close> of the vector branch and is not among them.
\<close>

definition walkerFailures :: "Helpers \<Rightarrow> exn set" where
  "walkerFailures H =
     {e. e = mixedFillsTypeError \<or>
         (\<exists>n a s. frameInlineStyles H n a s = Inl e) \<or>
         (\<exists>n a. groupInlineStyles H n a = Inl e) \<or>
         (\<exists>n. textFillStyles H n = Inl e) \<or>
         (\<exists>n a s f. textInlineStyles H n a s f = Inl e) \<or>
         (\<exists>n a c. blurredShapeMarkup H n a c = Inl e) \<or>
         (\<exists>n a s. rectInlineStyles H n a s = Inl e) \<or>
         (\<exists>n a s. vectorBaseStyles H n a s = Inl e) \<or>
         (\<exists>n a c s. vectorPlaceholderMarkup H n a c s = Inl e)}"

definition markupOf :: "WalkResult \<Rightarrow> string option" where
  "markupOf r = (case r of Inl e \<Rightarrow> None | Inr (html, context) \<Rightarrow> Some html)"

definition contextOf :: "WalkResult \<Rightarrow> ExportContext option" where
  "contextOf r = (case r of Inl e \<Rightarrow> None | Inr (html, context) \<Rightarrow> Some context)"

subsection \<open>Helpers, hosts and trees for concrete runs\<close>

text \<open>
  Helpers that add no styles of their own. The fills of the node named \<open>Mixed\<close> are
  mixed, so its node-level fill cannot be read (the \<^verbatim>\<open>TypeError\<close> above); no other helper
  throws. The style attribute joins the styles it is given; the placeholder of a vector
  node is an empty box, and the inlined SVG is the exported text in a box.
\<close>

definition plainStyleAttr :: "string list \<Rightarrow> OutputFormat \<Rightarrow> string" where
  "plainStyleAttr styles format =
     (if styles = [] then [] else ''style='' @ [CHR 0x22] @ joinWith ''; '' styles @ [CHR 0x22])"

definition exampleHelpers :: Helpers where
  "exampleHelpers =
     \<lparr> numberToString = decimalString,
       styleAttr = plainStyleAttr,
       positionStyles = (\<lambda>node container z. [''z-index: '' @ showInt z]),
       maskImageStyles = (\<lambda>node. []),
       sizingUtilities = (\<lambda>node mode. ([], [], [])),
       frameInlineStyles = (\<lambda>node args styles. Inr styles),
       groupInlineStyles = (\<lambda>node args. Inr []),
       textUtilitiesBefore = (\<lambda>node. []),
       textUtilitiesAfter = (\<lambda>node. []),
       fillsMixed = (\<lambda>node. nodeName (props node) = ''Mixed''),
       textFillStyles = (\<lambda>node. if nodeName (props node) = ''Mixed''
                                then Inl mixedFillsTypeError else Inr []),
       textInlineStyles = (\<lambda>node args styles fillStyles. Inr (styles @ fillStyles)),
       isBlurredShape = (\<lambda>node. False),
       blurredShapeMarkup = (\<lambda>node args cls. Inr []),
       rectInlineStyles = (\<lambda>node args styles. Inr styles),
       vectorBaseStyles = (\<lambda>node args styles. Inr styles),
       invisibleStrokesOnly = (\<lambda>node. False),
       vectorPlaceholderMarkup = (\<lambda>node args classes styles. Inr ''<div placeholder></div>''),
       vectorSvgMarkup = (\<lambda>node args classes styles svg counter. Inr (''<div>'' @ svg @ ''</div>'')),
       googleFontsImport = (\<lambda>families. []),
       documentMarkup = (\<lambda>format families body. body) \<rparr>"

text \<open>A host whose vector export and styled-segment call always fail.\<close>

definition failingHost :: "SceneNode \<Rightarrow> Host" where
  "failingHost rootNode =
     \<lparr> exportAsync = (\<lambda>node. Inl (Error ''export failed'')),
       styledSegmentsMarkup = (\<lambda>node format. Inl (Error ''segments failed'')),
       loadAsync = None,
       selection = Some rootNode,
       localeCompare = codeUnitCompare \<rparr>"

definition shape :: "string \<Rightarrow> string \<Rightarrow> NodeType \<Rightarrow> bool \<Rightarrow> SceneNode" where
  "shape i nm t masks =
     SceneNode ((plainProps i nm t)\<lparr> isMask := masks, width := 10, height := 10,
        cornerRadius := MixedRadius \<rparr>) []"

text \<open>The sibling list of the specification: A (mask), B, C, D (mask), E, in a layout frame.\<close>

definition maskExampleFrame :: SceneNode where
  "maskExampleFrame =
     SceneNode ((plainProps ''1:1'' ''Root'' FRAME)\<lparr> width := 100, height := 100,
        layout := plainLayout\<lparr> layoutMode := HORIZONTAL, primaryAxisAlignItems := SPACE_BETWEEN \<rparr> \<rparr>)
       [shape ''1:2'' ''A'' RECTANGLE True, shape ''1:3'' ''B'' RECTANGLE False,
        shape ''1:4'' ''C'' RECTANGLE False, shape ''1:5'' ''D'' RECTANGLE True,
        shape ''1:6'' ''E'' RECTANGLE False]"







lemma digitVal_digitChar: "d < 10 \<Longrightarrow> digitVal (digitChar d) = d"
proof -
  assume "d < 10"
  then have "d \<in> {0,1,2,3,4,5,6,7,8,9}" by auto
  then show ?thesis by (auto simp: digitVal_def digitChar_def)
qed

lemma isDigit_digitChar: "d < 10 \<Longrightarrow> isDigit (digitChar d)"
proof -
  assume "d < 10"
  then have "d \<in> {0,1,2,3,4,5,6,7,8,9}" by auto
  then show ?thesis by (auto simp: isDigit_def digitChar_def)
qed

lemma parseNat_showNat: "parseNat (showNat n) = n"
proof (induction n rule: showNat.induct)
  case (1 n)
  show ?case
  proof (cases "n < 10")
    case True
    then show ?thesis
      by (simp add: showNat.simps [of n] parseNat_def digitVal_digitChar)
  next
    case False
    with 1 have "parseNat (showNat (n div 10)) = n div 10" by simp
    with False show ?thesis
      by (simp add: showNat.simps [of n] parseNat_def digitVal_digitChar)
  qed
qed

lemma showNat_inj: "showNat a = showNat b \<Longrightarrow> a = b"
  by (metis parseNat_showNat)

lemma showNat_digits: "\<forall>c \<in> set (showNat n). isDigit c"
proof (induction n rule: showNat.induct)
  case (1 n)
  show ?case
  proof (cases "n < 10")
    case True
    then show ?thesis by (simp add: showNat.simps [of n] isDigit_digitChar)
  next
    case False
    with 1 show ?thesis by (simp add: showNat.simps [of n] isDigit_digitChar)
  qed
qed

lemma showNat_nonempty: "showNat n \<noteq> []"
  by (simp add: showNat.simps [of n])


lemma nthName_inj: "nthName base j = nthName base k \<Longrightarrow> j = k"
  by (auto simp: nthName_def dest: showNat_inj split: if_splits)

lemma uniqueNames_from:
  "fst (uniqueNames n base ctx) =
     map (\<lambda>i. nthName base (Suc (case nameCounts ctx base of None \<Rightarrow> 0 | Some c \<Rightarrow> c) + i)) [0..<n]"
proof (induction n arbitrary: ctx)
  case 0
  show ?case by simp
next
  case (Suc n)
  let ?c = "case nameCounts ctx base of None \<Rightarrow> 0 | Some c \<Rightarrow> c"
  let ?ctx' = "snd (getUniqueClassName base ctx)"
  have name: "fst (getUniqueClassName base ctx) = nthName base (Suc ?c)"
    by (simp add: getUniqueClassName_def nthName_def Let_def)
  have cnt: "nameCounts ?ctx' base = Some (Suc ?c)"
    by (simp add: getUniqueClassName_def Let_def)
  have "fst (uniqueNames (Suc n) base ctx) =
      fst (getUniqueClassName base ctx) # fst (uniqueNames n base ?ctx')"
    by (simp add: case_prod_unfold Let_def)
  also have "\<dots> = nthName base (Suc ?c) # map (\<lambda>i. nthName base (Suc (Suc ?c) + i)) [0..<n]"
    using Suc.IH [of ?ctx'] by (simp add: name cnt)
  also have "\<dots> = map (\<lambda>i. nthName base (Suc ?c + i)) [0..<Suc n]"
    by (simp add: map_upt_Suc del: upt_Suc)
  finally show ?case .
qed

text \<open>
  Claim C2. For every base string and every \<open>N\<close>, calling \<^verbatim>\<open>getUniqueClassName\<close> \<open>N\<close>
  times with that base on a fresh context returns exactly the names
  \<open>base, base-2, base-3, \<dots>, base-N\<close> in that order, and no name is returned twice.
\<close>

theorem uniqueName_sequence:
  "fst (uniqueNames N base freshContext) =
     map (\<lambda>k. if k = 1 then base else base @ ''-'' @ showNat k) [1..<Suc N]
   \<and> distinct (fst (uniqueNames N base freshContext))"
proof -
  have "fst (uniqueNames N base freshContext) = map (\<lambda>i. nthName base (Suc i)) [0..<N]"
    using uniqueNames_from [of N base freshContext] by (simp add: freshContext_def)
  also have "\<dots> = map (nthName base) (map Suc [0..<N])"
    by simp
  also have "map Suc [0..<N] = [1..<Suc N]"
    by (simp add: map_Suc_upt)
  finally have eq: "fst (uniqueNames N base freshContext) = map (nthName base) [1..<Suc N]" .
  have "inj_on (nthName base) (set [1..<Suc N])"
    by (rule inj_onI) (rule nthName_inj)
  then have "distinct (map (nthName base) [1..<Suc N])"
    by (simp add: distinct_map)
  with eq show ?thesis by (simp add: nthName_def [abs_def])
qed

theorem uniqueName_sequence_witness:
  "fst (uniqueNames 3 ''card'' freshContext) = [''card'', ''card-2'', ''card-3'']
   \<and> distinct (fst (uniqueNames 3 ''card'' freshContext))"
proof -
  have "map (\<lambda>k. if k = 1 then ''card'' else ''card'' @ ''-'' @ showNat k) [1..<Suc 3]
      = [''card'', ''card-2'', ''card-3'']"
    by code_simp
  with uniqueName_sequence [of 3 "''card''"] show ?thesis by simp
qed

section \<open>Sorting the style entries\<close>

lemma codeUnitCompare_flip: "codeUnitCompare a b = - codeUnitCompare b a"
proof (induction a b rule: codeUnitCompare.induct)
  case (4 x xs y ys)
  consider "(of_char x :: nat) < of_char y" | "(of_char y :: nat) < of_char x"
    | "\<not> (of_char x :: nat) < of_char y" "\<not> (of_char y :: nat) < of_char x"
    by linarith
  then show ?case
  proof cases
    case 1
    then show ?thesis by simp
  next
    case 2
    then show ?thesis by simp
  next
    case 3
    with "4.IH" have "codeUnitCompare xs ys = - codeUnitCompare ys xs" by blast
    with 3 show ?thesis by (simp only: codeUnitCompare.simps if_False)
  qed
qed simp_all

lemma codeUnitCompare_trans:
  "codeUnitCompare a b \<le> 0 \<Longrightarrow> codeUnitCompare b c \<le> 0 \<Longrightarrow> codeUnitCompare a c \<le> 0"
proof (induction a b arbitrary: c rule: codeUnitCompare.induct)
  case 1
  then show ?case by simp
next
  case (2 y ys)
  then show ?case by (cases c) simp_all
next
  case (3 x xs)
  then show ?case by simp
next
  case (4 x xs y ys)
  show ?case
  proof (cases c)
    case Nil
    with "4.prems"(2) show ?thesis by simp
  next
    case (Cons z zs)
    from "4.prems"(1) have xy: "(of_char x :: nat) \<le> of_char y"
      by (simp split: if_splits)
    from "4.prems"(2) Cons have yz: "(of_char y :: nat) \<le> of_char z"
      by (simp split: if_splits)
    show ?thesis
    proof (cases "(of_char x :: nat) < of_char z")
      case True
      with Cons show ?thesis by simp
    next
      case False
      with xy yz have e1: "(of_char x :: nat) = of_char y" and e2: "(of_char y :: nat) = of_char z"
        by linarith+
      from e1 "4.prems"(1) have 1: "codeUnitCompare xs ys \<le> 0" by simp
      from e2 "4.prems"(2) Cons have 2: "codeUnitCompare ys zs \<le> 0" by simp
      from e1 have n: "\<not> (of_char x :: nat) < of_char y" "\<not> (of_char y :: nat) < of_char x"
        by simp_all
      have "codeUnitCompare xs zs \<le> 0"
        using "4.IH" [OF n 1 2] .
      with e1 e2 Cons show ?thesis by simp
    qed
  qed
qed

lemma consistent_codeUnitCompare: "consistentComparator codeUnitCompare"
proof -
  have "sgn (codeUnitCompare a b) = - sgn (codeUnitCompare b a)" for a b
    by (subst codeUnitCompare_flip) (simp add: sgn_if)
  moreover have "codeUnitCompare a b \<le> 0 \<and> codeUnitCompare b c \<le> 0 \<longrightarrow> codeUnitCompare a c \<le> 0"
    for a b c
    using codeUnitCompare_trans by blast
  ultimately show ?thesis
    unfolding consistentComparator_def by blast
qed

lemma consistent_flip: "consistentComparator cmp \<Longrightarrow> sgn (cmp a b) = - sgn (cmp b a)"
  unfolding consistentComparator_def by blast

lemma consistent_total: "consistentComparator cmp \<Longrightarrow> \<not> cmp x y \<le> 0 \<Longrightarrow> cmp y x \<le> 0"
proof -
  assume c: "consistentComparator cmp" and n: "\<not> cmp x y \<le> 0"
  from c have "sgn (cmp x y) = - sgn (cmp y x)" by (rule consistent_flip)
  with n show ?thesis by (simp add: sgn_if split: if_splits)
qed

lemma consistent_trans:
  "consistentComparator cmp \<Longrightarrow> cmp a b \<le> 0 \<Longrightarrow> cmp b c \<le> 0 \<Longrightarrow> cmp a c \<le> 0"
  unfolding consistentComparator_def by blast

lemma consistent_antisym:
  "consistentComparator cmp \<Longrightarrow> cmp a b \<le> 0 \<Longrightarrow> cmp b a \<le> 0 \<Longrightarrow> cmp a b = 0"
proof -
  assume c: "consistentComparator cmp" and 1: "cmp a b \<le> 0" and 2: "cmp b a \<le> 0"
  from c have "sgn (cmp a b) = - sgn (cmp b a)" by (rule consistent_flip)
  with 1 2 show ?thesis by (simp add: sgn_if split: if_splits)
qed

lemma set_insertSorted: "set (insertSorted cmp x xs) = insert x (set xs)"
  by (induction xs) auto

lemma mset_insertSorted: "mset (insertSorted cmp x xs) = add_mset x (mset xs)"
  by (induction xs) auto

lemma mset_sortWith: "mset (sortWith cmp xs) = mset xs"
  by (induction xs) (simp_all add: sortWith_def mset_insertSorted)


lemma sorted_insertSorted:
  assumes "consistentComparator cmp" and "sorted_wrt (\<lambda>a b. cmp a b \<le> 0) xs"
  shows "sorted_wrt (\<lambda>a b. cmp a b \<le> 0) (insertSorted cmp x xs)"
  using assms(2)
proof (induction xs)
  case Nil
  show ?case by simp
next
  case (Cons y ys)
  show ?case
  proof (cases "cmp x y \<le> 0")
    case True
    with Cons.prems show ?thesis
      by (auto intro: consistent_trans [OF assms(1)])
  next
    case False
    then have "cmp y x \<le> 0" by (rule consistent_total [OF assms(1)])
    with False Cons show ?thesis
      by (auto simp: set_insertSorted)
  qed
qed

lemma sortWith_Cons: "sortWith cmp (x # xs) = insertSorted cmp x (sortWith cmp xs)"
  by (simp add: sortWith_def)

lemma sorted_sortWith:
  assumes "consistentComparator cmp"
  shows "sorted_wrt (\<lambda>a b. cmp a b \<le> 0) (sortWith cmp xs)"
proof (induction xs)
  case Nil
  show ?case by (simp add: sortWith_def)
next
  case (Cons x xs)
  show ?case
    unfolding sortWith_Cons using assms Cons.IH by (rule sorted_insertSorted)
qed

lemma sorted_unique:
  assumes "consistentComparator cmp"
  shows "sorted_wrt (\<lambda>a b. cmp a b \<le> 0) xs \<Longrightarrow> sorted_wrt (\<lambda>a b. cmp a b \<le> 0) ys \<Longrightarrow>
    mset xs = mset ys \<Longrightarrow> (\<forall>a \<in> set xs. \<forall>b \<in> set xs. cmp a b = 0 \<longrightarrow> a = b) \<Longrightarrow> xs = ys"
proof (induction xs arbitrary: ys)
  case Nil
  then show ?case by simp
next
  case (Cons x xs)
  from Cons.prems(3) obtain y ys' where ys: "ys = y # ys'"
    by (cases ys) auto
  have sets: "set (x # xs) = set (y # ys')"
    using Cons.prems(3) ys by (metis set_mset_mset)
  have xy: "cmp x y \<le> 0"
  proof (cases "y = x")
    case True
    from assms have "sgn (cmp x x) = - sgn (cmp x x)" by (rule consistent_flip)
    then have "cmp x x = 0" by (simp add: sgn_if split: if_splits)
    with True show ?thesis by simp
  next
    case False
    with sets have "y \<in> set xs" by auto
    with Cons.prems(1) show ?thesis by simp
  qed
  have yx: "cmp y x \<le> 0"
  proof (cases "x = y")
    case True
    with xy show ?thesis by simp
  next
    case False
    with sets have "x \<in> set ys'" by auto
    with Cons.prems(2) ys show ?thesis by simp
  qed
  have "cmp x y = 0" using consistent_antisym [OF assms xy yx] .
  moreover have "y \<in> set (x # xs)" using sets by simp
  ultimately have eq: "x = y" using Cons.prems(4) by auto
  have "xs = ys'"
  proof (rule Cons.IH)
    show "sorted_wrt (\<lambda>a b. cmp a b \<le> 0) xs" using Cons.prems(1) by simp
    show "sorted_wrt (\<lambda>a b. cmp a b \<le> 0) ys'" using Cons.prems(2) ys by simp
    show "mset xs = mset ys'" using Cons.prems(3) ys eq by simp
    show "\<forall>a \<in> set xs. \<forall>b \<in> set xs. cmp a b = 0 \<longrightarrow> a = b"
      using Cons.prems(4) by simp
  qed
  with eq ys show ?case by simp
qed

lemma consistent_compareEntries:
  assumes "consistentComparator lc"
  shows "consistentComparator (compareEntries lc)"
proof -
  have flip: "sgn (lc a b) = - sgn (lc b a)" for a b
    using assms by (rule consistent_flip)
  have tr: "lc a b \<le> 0 \<Longrightarrow> lc b c \<le> 0 \<Longrightarrow> lc a c \<le> 0" for a b c
    using assms unfolding consistentComparator_def by blast
  have zero: "lc a b = 0 \<longleftrightarrow> lc b a = 0" for a b
    using flip [of a b] by (auto simp: sgn_if split: if_splits)
  have neg: "lc a b < 0 \<longleftrightarrow> lc b a > 0" for a b
    using flip [of a b] by (auto simp: sgn_if split: if_splits)
  have 1: "sgn (compareEntries lc a b) = - sgn (compareEntries lc b a)" for a b
  proof (cases "lc (baseName a) (baseName b) = 0")
    case True
    then have "lc (baseName b) (baseName a) = 0" using zero by blast
    with True have "compareEntries lc a b = int (suffix a) - int (suffix b)"
      and "compareEntries lc b a = int (suffix b) - int (suffix a)"
      by (simp_all add: compareEntries_def)
    then show ?thesis by (simp add: sgn_if)
  next
    case False
    then have "lc (baseName b) (baseName a) \<noteq> 0" using zero by blast
    with False have "compareEntries lc a b = lc (baseName a) (baseName b)"
      and "compareEntries lc b a = lc (baseName b) (baseName a)"
      by (simp_all add: compareEntries_def)
    then show ?thesis using flip [of "baseName a" "baseName b"] by simp
  qed
  have 2: "compareEntries lc a c \<le> 0"
    if ab: "compareEntries lc a b \<le> 0" and bc: "compareEntries lc b c \<le> 0" for a b c
  proof -
    let ?A = "baseName a" and ?B = "baseName b" and ?C = "baseName c"
    from ab have ab': "lc ?A ?B \<le> 0" by (auto simp: compareEntries_def Let_def split: if_splits)
    from bc have bc': "lc ?B ?C \<le> 0" by (auto simp: compareEntries_def Let_def split: if_splits)
    from ab' bc' have ac': "lc ?A ?C \<le> 0" by (rule tr)
    show ?thesis
    proof (cases "lc ?A ?C = 0")
      case False
      with ac' show ?thesis by (simp add: compareEntries_def Let_def)
    next
      case True
      then have ca: "lc ?C ?A \<le> 0" using zero [of ?A ?C] by simp
      from bc' ca have "lc ?B ?A \<le> 0" by (rule tr)
      with ab' have ab0: "lc ?A ?B = 0" using neg [of ?A ?B] by linarith
      from ca ab' have "lc ?C ?B \<le> 0" by (rule tr)
      with bc' have bc0: "lc ?B ?C = 0" using neg [of ?B ?C] by linarith
      from ab ab0 bc bc0 True show ?thesis by (simp add: compareEntries_def Let_def)
    qed
  qed
  show ?thesis unfolding consistentComparator_def using 1 2 by blast
qed
section \<open>Interning declaration lists\<close>

text \<open>
  Once a declaration list has been interned under a non-empty class name, interning the
  same list again, under any base name, returns that name and changes nothing.
\<close>

lemma getClassForStyle_again:
  assumes "getClassForStyle base lines ctx = (cls, ctx')" and "cls \<noteq> []"
  shows "getClassForStyle base' lines ctx' = (cls, ctx')"
proof (cases "styleMap ctx (joinWith newline lines) \<noteq> None \<and> styleMap ctx (joinWith newline lines) \<noteq> Some []")
  case True
  with assms(1) have "ctx' = ctx" and "cls = the (styleMap ctx (joinWith newline lines))"
    by (auto simp: getClassForStyle_def Let_def)
  with True show ?thesis
    by (auto simp: getClassForStyle_def Let_def)
next
  case False
  with assms(1) have "styleMap ctx' (joinWith newline lines) = Some cls"
    by (auto simp: getClassForStyle_def Let_def case_prod_unfold)
  with assms(2) show ?thesis
    by (simp add: getClassForStyle_def Let_def)
qed

text \<open>
  Claim C1 asks that two requests with different declaration lists never get the same
  class name. The counter of \<^verbatim>\<open>getUniqueClassName\<close> is kept per base, and the second use
  of the base \<open>card\<close> is named \<open>card-2\<close>, which is also the first name of the base
  \<open>card-2\<close>: three requests with three different declaration lists, the last two under
  one class name.
\<close>

theorem getClassForStyle_name_collision:
  "fst (getClassForStyle ''card'' [''  width: 10px;''] freshContext) = ''card''
   \<and> fst (getClassForStyle ''card'' [''  width: 20px;'']
        (snd (getClassForStyle ''card'' [''  width: 10px;''] freshContext))) = ''card-2''
   \<and> fst (getClassForStyle ''card-2'' [''  width: 30px;'']
        (snd (getClassForStyle ''card'' [''  width: 20px;'']
          (snd (getClassForStyle ''card'' [''  width: 10px;''] freshContext))))) = ''card-2''"
  by (simp add: getClassForStyle_def getUniqueClassName_def freshContext_def Let_def newline_def
      showNat.simps digitChar_def)

section \<open>The serialized stylesheet\<close>

text \<open>
  Claim C3, as stated, fails: two rectangles named \<open>Card\<close> with different corner radii
  get the names \<open>Card\<close> and \<open>Card-2\<close> in the order they are visited, so visiting them
  in the other order swaps the two rule bodies in the CSS text.
\<close>

theorem stylesheet_depends_on_visit_order:
  "stylesheetCss codeUnitCompare Html []
     (styleEntries (snd (getClassForStyle ''Card'' [''  border-radius: 8px;'']
        (snd (getClassForStyle ''Card'' [''  border-radius: 4px;''] freshContext)))))
   \<noteq> stylesheetCss codeUnitCompare Html []
     (styleEntries (snd (getClassForStyle ''Card'' [''  border-radius: 4px;'']
        (snd (getClassForStyle ''Card'' [''  border-radius: 8px;''] freshContext)))))"
  by (simp add: getClassForStyle_def getUniqueClassName_def freshContext_def Let_def newline_def
      showNat.simps digitChar_def stylesheetCss_def sortWith_def compareEntries_def ruleText_def
      suffixMatch_def isDigit_def parseNat_def digitVal_def)

text \<open>
  Claim C3, amended. For a consistent \<^verbatim>\<open>localeCompare\<close>, the serialized entries are the
  registered entries in ascending order of (base name, suffix), suffix 0 before suffix 2;
  and when no two different entries tie on (base name, suffix), the CSS text does not
  depend on the order in which the same entries were registered.
\<close>

theorem stylesheet_sorted:
  assumes "consistentComparator lc"
  shows "sorted_wrt (\<lambda>a b. compareEntries lc a b \<le> 0) (sortWith (compareEntries lc) entries)
    \<and> mset (sortWith (compareEntries lc) entries) = mset entries
    \<and> (mset entries' = mset entries
         \<and> (\<forall>a \<in> set entries. \<forall>b \<in> set entries. compareEntries lc a b = 0 \<longrightarrow> a = b)
       \<longrightarrow> stylesheetCss lc format fontImport entries' = stylesheetCss lc format fontImport entries)"
proof -
  let ?cmp = "compareEntries lc"
  have c: "consistentComparator ?cmp"
    using assms by (rule consistent_compareEntries)
  have s: "sorted_wrt (\<lambda>a b. ?cmp a b \<le> 0) (sortWith ?cmp es)" for es
    using c by (rule sorted_sortWith)
  have "sortWith ?cmp entries = sortWith ?cmp entries'"
    if m: "mset entries' = mset entries"
      and t: "\<forall>a \<in> set entries. \<forall>b \<in> set entries. ?cmp a b = 0 \<longrightarrow> a = b"
  proof (rule sorted_unique [OF c s s])
    show "mset (sortWith ?cmp entries) = mset (sortWith ?cmp entries')"
      using m by (simp add: mset_sortWith)
    have "set (sortWith ?cmp entries) = set entries"
      by (metis mset_sortWith set_mset_mset)
    with t show "\<forall>a \<in> set (sortWith ?cmp entries). \<forall>b \<in> set (sortWith ?cmp entries). ?cmp a b = 0 \<longrightarrow> a = b"
      by simp
  qed
  then show ?thesis
    using s [of entries] by (simp add: mset_sortWith stylesheetCss_def)
qed

theorem stylesheet_sorted_witness:
  "sorted_wrt (\<lambda>a b. compareEntries codeUnitCompare a b \<le> 0)
     (sortWith (compareEntries codeUnitCompare)
       [\<lparr>className = ''flex'', baseName = ''flex'', suffix = 0, cssText = ''.flex {}''\<rparr>,
        \<lparr>className = ''Card-2'', baseName = ''Card'', suffix = 2, cssText = ''.Card-2 {}''\<rparr>,
        \<lparr>className = ''Card'', baseName = ''Card'', suffix = 0, cssText = ''.Card {}''\<rparr>])
   \<and> stylesheetCss codeUnitCompare Html []
       [\<lparr>className = ''Card'', baseName = ''Card'', suffix = 0, cssText = ''.Card {}''\<rparr>,
        \<lparr>className = ''Card-2'', baseName = ''Card'', suffix = 2, cssText = ''.Card-2 {}''\<rparr>,
        \<lparr>className = ''flex'', baseName = ''flex'', suffix = 0, cssText = ''.flex {}''\<rparr>]
     = stylesheetCss codeUnitCompare Html []
       [\<lparr>className = ''flex'', baseName = ''flex'', suffix = 0, cssText = ''.flex {}''\<rparr>,
        \<lparr>className = ''Card-2'', baseName = ''Card'', suffix = 2, cssText = ''.Card-2 {}''\<rparr>,
        \<lparr>className = ''Card'', baseName = ''Card'', suffix = 0, cssText = ''.Card {}''\<rparr>]
   \<and> sortWith (compareEntries codeUnitCompare)
       [\<lparr>className = ''flex'', baseName = ''flex'', suffix = 0, cssText = ''.flex {}''\<rparr>,
        \<lparr>className = ''Card-2'', baseName = ''Card'', suffix = 2, cssText = ''.Card-2 {}''\<rparr>,
        \<lparr>className = ''Card'', baseName = ''Card'', suffix = 0, cssText = ''.Card {}''\<rparr>]
     = [\<lparr>className = ''Card'', baseName = ''Card'', suffix = 0, cssText = ''.Card {}''\<rparr>,
        \<lparr>className = ''Card-2'', baseName = ''Card'', suffix = 2, cssText = ''.Card-2 {}''\<rparr>,
        \<lparr>className = ''flex'', baseName = ''flex'', suffix = 0, cssText = ''.flex {}''\<rparr>]"
  using stylesheet_sorted [OF consistent_codeUnitCompare,
    of "[\<lparr>className = ''flex'', baseName = ''flex'', suffix = 0, cssText = ''.flex {}''\<rparr>,
        \<lparr>className = ''Card-2'', baseName = ''Card'', suffix = 2, cssText = ''.Card-2 {}''\<rparr>,
        \<lparr>className = ''Card'', baseName = ''Card'', suffix = 0, cssText = ''.Card {}''\<rparr>]"
       "[\<lparr>className = ''Card'', baseName = ''Card'', suffix = 0, cssText = ''.Card {}''\<rparr>,
        \<lparr>className = ''Card-2'', baseName = ''Card'', suffix = 2, cssText = ''.Card-2 {}''\<rparr>,
        \<lparr>className = ''flex'', baseName = ''flex'', suffix = 0, cssText = ''.flex {}''\<rparr>]"
       Html "[]"]
  by (simp add: sortWith_def compareEntries_def)

section \<open>Sanitizing names\<close>

lemma toLowerChar_nameChar: "isNameChar c \<Longrightarrow> toLowerChar c = c"
  by (auto simp: isNameChar_def toLowerChar_def)


lemma cleanChar_hyphen: "cleanChar (CHR ''-'')"
  by (simp add: cleanChar_def isNameChar_def isWhitespace_def)

lemma set_trim: "set (trim s) \<subseteq> set s"
proof -
  have "set (trim s) \<subseteq> set (dropWhile isWhitespace s)"
    unfolding trim_def using set_dropWhileD by fastforce
  also have "\<dots> \<subseteq> set s"
    using set_dropWhileD by fastforce
  finally show ?thesis .
qed

lemma set_stripHyphens: "set (stripHyphens s) \<subseteq> set s"
proof -
  have "set (stripHyphens s) \<subseteq> set (dropWhile isHyphen s)"
    unfolding stripHyphens_def using set_dropWhileD by fastforce
  also have "\<dots> \<subseteq> set s"
    using set_dropWhileD by fastforce
  finally show ?thesis .
qed

lemma collapseWhitespace_chars:
  "c \<in> set (collapseWhitespace s) \<Longrightarrow> (c \<in> set s \<and> \<not> isWhitespace c) \<or> c = CHR ''-''"
proof (induction s rule: collapseWhitespace.induct)
  case 1
  then show ?case by simp
next
  case (2 d ds)
  show ?case
  proof (cases "isWhitespace d")
    case True
    with "2.prems" have "c = CHR ''-'' \<or> c \<in> set (collapseWhitespace (dropWhile isWhitespace ds))"
      by simp
    then show ?thesis
    proof
      assume "c = CHR ''-''"
      then show ?thesis by simp
    next
      assume "c \<in> set (collapseWhitespace (dropWhile isWhitespace ds))"
      with "2.IH"(1) [OF True] have "(c \<in> set (dropWhile isWhitespace ds) \<and> \<not> isWhitespace c) \<or> c = CHR ''-''"
        by blast
      then show ?thesis using set_dropWhileD by fastforce
    qed
  next
    case False
    with "2.prems" have "c = d \<or> c \<in> set (collapseWhitespace ds)" by simp
    then show ?thesis
    proof
      assume "c = d"
      with False show ?thesis by simp
    next
      assume "c \<in> set (collapseWhitespace ds)"
      with "2.IH"(2) [OF False] show ?thesis by auto
    qed
  qed
qed

lemma collapseWhitespace_id:
  "\<forall>c \<in> set s. \<not> isWhitespace c \<Longrightarrow> collapseWhitespace s = s"
  by (induction s) auto

lemma strip_ends:
  fixes P :: "'a \<Rightarrow> bool"
  defines "strip \<equiv> \<lambda>s. rev (dropWhile P (rev (dropWhile P s)))"
  shows "strip s = [] \<or> (\<not> P (hd (strip s)) \<and> \<not> P (last (strip s)))"
proof (cases "strip s = []")
  case True
  then show ?thesis by simp
next
  case False
  let ?u = "dropWhile P s"
  let ?w = "dropWhile P (rev ?u)"
  have v: "strip s = rev ?w" by (simp add: strip_def)
  with False have w: "?w \<noteq> []" by simp
  then have "\<not> P (hd ?w)" by (rule hd_dropWhile)
  with w v have last: "\<not> P (last (strip s))" by (simp add: last_rev)
  have "rev ?u = takeWhile P (rev ?u) @ ?w" by simp
  then have "?u = rev ?w @ rev (takeWhile P (rev ?u))"
    by (metis rev_append rev_rev_ident)
  with v have u: "?u = strip s @ rev (takeWhile P (rev ?u))" by simp
  with False have "hd ?u = hd (strip s)" by (metis hd_append2)
  moreover from u False have "?u \<noteq> []" by (metis Nil_is_append_conv)
  then have "\<not> P (hd ?u)" by (rule hd_dropWhile)
  ultimately show ?thesis using last by simp
qed

lemma strip_id:
  assumes "s = [] \<or> (\<not> P (hd s) \<and> \<not> P (last s))"
  shows "rev (dropWhile P (rev (dropWhile P s))) = s"
proof (cases "s = []")
  case True
  then show ?thesis by simp
next
  case False
  with assms have h: "\<not> P (hd s)" and l: "\<not> P (last s)" by simp_all
  from False h have 1: "dropWhile P s = s" by (cases s) simp_all
  from False l have "\<not> P (hd (rev s))" by (simp add: hd_rev)
  with False have 2: "dropWhile P (rev s) = rev s" by (cases "rev s") simp_all
  from 1 2 show ?thesis by simp
qed

lemma sanitizeName_clean: "\<forall>c \<in> set (sanitizeName x). cleanChar c"
proof
  fix c assume "c \<in> set (sanitizeName x)"
  then have "c \<in> set (collapseWhitespace (trim (filter isNameChar (toLowerCase x))))"
    unfolding sanitizeName_def using set_stripHyphens by blast
  then have "(c \<in> set (trim (filter isNameChar (toLowerCase x))) \<and> \<not> isWhitespace c) \<or> c = CHR ''-''"
    by (rule collapseWhitespace_chars)
  then show "cleanChar c"
  proof
    assume a: "c \<in> set (trim (filter isNameChar (toLowerCase x))) \<and> \<not> isWhitespace c"
    then have "c \<in> set (filter isNameChar (toLowerCase x))" using set_trim by blast
    with a show ?thesis by (simp add: cleanChar_def)
  next
    assume "c = CHR ''-''"
    then show ?thesis by (simp add: cleanChar_hyphen)
  qed
qed

lemma sanitizeName_ends:
  "sanitizeName x = [] \<or> (\<not> isHyphen (hd (sanitizeName x)) \<and> \<not> isHyphen (last (sanitizeName x)))"
  unfolding sanitizeName_def stripHyphens_def by (rule strip_ends)

lemma sanitizeName_fixed:
  assumes clean: "\<forall>c \<in> set s. cleanChar c"
    and ends: "s = [] \<or> (\<not> isHyphen (hd s) \<and> \<not> isHyphen (last s))"
  shows "sanitizeName s = s"
proof -
  have 1: "toLowerCase s = s"
    unfolding toLowerCase_def using clean
    by (intro map_idI) (simp add: cleanChar_def toLowerChar_nameChar)
  have 2: "filter isNameChar s = s"
    using clean by (simp add: cleanChar_def)
  have ws: "s = [] \<or> (\<not> isWhitespace (hd s) \<and> \<not> isWhitespace (last s))"
    using clean by (cases "s = []") (simp_all add: cleanChar_def)
  have 3: "trim s = s"
    unfolding trim_def using ws by (rule strip_id)
  have 4: "collapseWhitespace s = s"
    using clean by (intro collapseWhitespace_id) (simp add: cleanChar_def)
  have 5: "stripHyphens s = s"
    unfolding stripHyphens_def using ends by (rule strip_id)
  show ?thesis
    by (simp add: sanitizeName_def 1 2 3 4 5)
qed

text \<open>
  Claim C9. \<^verbatim>\<open>sanitizeName\<close> is idempotent: sanitizing a sanitized name changes nothing.
\<close>

theorem sanitizeName_idempotent: "sanitizeName (sanitizeName x) = sanitizeName x"
  using sanitizeName_clean sanitizeName_ends by (rule sanitizeName_fixed)

theorem sanitizeName_idempotent_witness:
  "sanitizeName ''  Hello World! - 2 '' = ''hello-world---2''
   \<and> sanitizeName ''hello-world---2'' = ''hello-world---2''"
proof -
  have "sanitizeName ''  Hello World! - 2 '' = ''hello-world---2''"
    by code_simp
  with sanitizeName_idempotent [of "''  Hello World! - 2 ''"] show ?thesis by simp
qed

section \<open>Escaping text\<close>

lemma htmlEntity_chars:
  "set (htmlEntity c) \<inter> {CHR ''<'', CHR ''>'', CHR 0x22, CHR 0x27} = {}"
  by (simp add: htmlEntity_def)

lemma jsxEntity_chars:
  "set (jsxEntity c) \<inter> {CHR ''<'', CHR ''>'', CHR ''{'', CHR ''}''} = {}"
  by (simp add: jsxEntity_def)

lemma escapeHtml_chars:
  "set (escapeHtml s) \<inter> {CHR ''<'', CHR ''>'', CHR 0x22, CHR 0x27} = {}"
proof (induction s)
  case Nil
  show ?case by (simp add: escapeHtml_def)
next
  case (Cons c s)
  have "escapeHtml (c # s) = htmlEntity c @ escapeHtml s"
    by (simp add: escapeHtml_def)
  with Cons htmlEntity_chars [of c] show ?case
    by (simp add: Int_Un_distrib2)
qed

lemma escapeJsxText_chars:
  "set (escapeJsxText s) \<inter> {CHR ''<'', CHR ''>'', CHR ''{'', CHR ''}''} = {}"
proof (induction s)
  case Nil
  show ?case by (simp add: escapeJsxText_def)
next
  case (Cons c s)
  have "escapeJsxText (c # s) = jsxEntity c @ escapeJsxText s"
    by (simp add: escapeJsxText_def)
  with Cons jsxEntity_chars [of c] show ?case
    by (simp add: Int_Un_distrib2)
qed

text \<open>
  Claim C8, as stated, fails for the React dialect: \<^verbatim>\<open>escapeJsxText\<close> does not reserve the
  two quote characters; it returns them as they are.
\<close>

theorem escapeJsxText_keeps_quotes:
  "escapeJsxText [CHR 0x22, CHR 0x27] = [CHR 0x22, CHR 0x27]"
  by (simp add: escapeJsxText_def jsxEntity_def)

text \<open>
  Claim C8, amended. \<^verbatim>\<open>escapeHtml\<close> works character by character, replaces each of
  \<open>& < > " '\<close> by its entity and leaves every other character, so its output contains
  none of \<open>< > " '\<close>. \<^verbatim>\<open>escapeJsxText\<close> does the same for \<open>& < > { }\<close>, so its output
  contains none of \<open>< > { }\<close>; it leaves the two quote characters unchanged.
\<close>

theorem escape_reserved_characters:
  "escapeHtml (a @ b) = escapeHtml a @ escapeHtml b
   \<and> escapeHtml [c] =
       (if c = CHR ''&'' then ''&amp;'' else if c = CHR ''<'' then ''&lt;''
        else if c = CHR ''>'' then ''&gt;'' else if c = CHR 0x22 then ''&quot;''
        else if c = CHR 0x27 then ''&#39;'' else [c])
   \<and> set (escapeHtml s) \<inter> {CHR ''<'', CHR ''>'', CHR 0x22, CHR 0x27} = {}
   \<and> escapeJsxText (a @ b) = escapeJsxText a @ escapeJsxText b
   \<and> escapeJsxText [c] =
       (if c = CHR ''&'' then ''&amp;'' else if c = CHR ''<'' then ''&lt;''
        else if c = CHR ''>'' then ''&gt;'' else if c = CHR ''{'' then ''&#123;''
        else if c = CHR ''}'' then ''&#125;'' else [c])
   \<and> set (escapeJsxText s) \<inter> {CHR ''<'', CHR ''>'', CHR ''{'', CHR ''}''} = {}"
proof -
  have "escapeHtml (a @ b) = escapeHtml a @ escapeHtml b"
    by (simp add: escapeHtml_def)
  moreover have "escapeJsxText (a @ b) = escapeJsxText a @ escapeJsxText b"
    by (simp add: escapeJsxText_def)
  moreover have "escapeHtml [c] = htmlEntity c"
    by (simp add: escapeHtml_def)
  moreover have "escapeJsxText [c] = jsxEntity c"
    by (simp add: escapeJsxText_def)
  ultimately show ?thesis
    using escapeHtml_chars [of s] escapeJsxText_chars [of s]
    by (simp add: htmlEntity_def jsxEntity_def)
qed

theorem escape_reserved_characters_witness:
  "escapeHtml ''a<b & c'' = ''a&lt;b &amp; c''
   \<and> escapeHtml [CHR 0x22] = ''&quot;''
   \<and> set (escapeHtml ''a<b & c'') \<inter> {CHR ''<'', CHR ''>'', CHR 0x22, CHR 0x27} = {}
   \<and> escapeJsxText [CHR ''{''] = ''&#123;''
   \<and> set (escapeJsxText ''a<b & c'') \<inter> {CHR ''<'', CHR ''>'', CHR ''{'', CHR ''}''} = {}"
  using escape_reserved_characters [of "''a<b''" "'' & c''" "CHR 0x22" "''a<b & c''"]
    escape_reserved_characters [of "''a<b''" "'' & c''" "CHR ''{''" "''a<b & c''"]
  by (simp add: escapeHtml_def htmlEntity_def)

section \<open>CENTER constraints\<close>

lemma center_horizontal:
  assumes "layoutPositioning (props node) = Some ABSOLUTE"
    and "constraints (props node) = Some (ConstraintCENTER, v)"
  shows "''left: 50%'' \<in> set (getAbsolutePositionStyles str node (Some pf))
    \<and> (\<exists>rest. last (getAbsolutePositionStyles str node (Some pf)) =
          ''transform: '' @ joinWith '' '' (centerParts str ''X'' (residualX node pf) @ rest)
        \<and> list_all (\<lambda>p. take 11 p \<noteq> ''translateX('') rest)"
proof -
  obtain sv pv where v: "(case v of
        ConstraintMAX \<Rightarrow> ([''bottom: '' @ str (roundPx (height (props pf) - (nodeY (props node) + height (props node)))) @ ''px''], [])
      | ConstraintCENTER \<Rightarrow>
          (let centerY = nodeY (props node) + height (props node) / 2;
               offsetY = roundPx (centerY - height (props pf) / 2)
           in ([''top: 50%''],
               ''translateY(-50%)'' #
                 (if mathRound offsetY \<noteq> 0
                  then [''translateY('' @ str offsetY @ ''px)''] else [])))
      | STRETCH \<Rightarrow> ([''top: '' @ str (roundPx (nodeY (props node))) @ ''px'', ''bottom: '' @ str (roundPx (height (props pf) - (nodeY (props node) + height (props node)))) @ ''px''], [])
      | _ \<Rightarrow> ([''top: '' @ str (roundPx (nodeY (props node))) @ ''px''], [])) = (sv, pv)"
    by (cases "(case v of
        ConstraintMAX \<Rightarrow> ([''bottom: '' @ str (roundPx (height (props pf) - (nodeY (props node) + height (props node)))) @ ''px''], [])
      | ConstraintCENTER \<Rightarrow>
          (let centerY = nodeY (props node) + height (props node) / 2;
               offsetY = roundPx (centerY - height (props pf) / 2)
           in ([''top: 50%''],
               ''translateY(-50%)'' #
                 (if mathRound offsetY \<noteq> 0
                  then [''translateY('' @ str offsetY @ ''px)''] else [])))
      | STRETCH \<Rightarrow> ([''top: '' @ str (roundPx (nodeY (props node))) @ ''px'', ''bottom: '' @ str (roundPx (height (props pf) - (nodeY (props node) + height (props node)))) @ ''px''], [])
      | _ \<Rightarrow> ([''top: '' @ str (roundPx (nodeY (props node))) @ ''px''], []))") auto
  have pv: "list_all (\<lambda>p. take 11 p \<noteq> ''translateX('') pv"
    using v by (cases v) (auto simp: Let_def split: if_splits)
  let ?pr = "if isMeaningfulRotation (rotation (props node))
             then [''rotate('' @ str (cssRotationDeg (rotation (props node))) @ ''deg)''] else []"
  let ?sr = "if isMeaningfulRotation (rotation (props node)) then [''transform-origin: 0 0''] else []"
  let ?z = "indexOfNode (children pf) node"
  have S: "getAbsolutePositionStyles str node (Some pf) =
      [''position: absolute''] @ (if ?z \<ge> 0 then [''z-index: '' @ showInt ?z] else []) @
      [''left: 50%''] @ sv @ ?sr @
      [''transform: '' @ joinWith '' '' (centerParts str ''X'' (residualX node pf) @ pv @ ?pr)]"
    using assms v
    by (simp add: getAbsolutePositionStyles_def Let_def centerParts_def residualX_def)
  have pr: "list_all (\<lambda>p. take 11 p \<noteq> ''translateX('') (pv @ ?pr)"
    using pv by simp
  have left: "''left: 50%'' \<in> set (getAbsolutePositionStyles str node (Some pf))"
    unfolding S by simp
  have last: "last (getAbsolutePositionStyles str node (Some pf)) =
      ''transform: '' @ joinWith '' '' (centerParts str ''X'' (residualX node pf) @ pv @ ?pr)"
    unfolding S by simp
  from last pr have "\<exists>rest. last (getAbsolutePositionStyles str node (Some pf)) =
          ''transform: '' @ joinWith '' '' (centerParts str ''X'' (residualX node pf) @ rest)
        \<and> list_all (\<lambda>p. take 11 p \<noteq> ''translateX('') rest"
    by blast
  with left show ?thesis by blast
qed


lemma center_vertical:
  assumes "layoutPositioning (props node) = Some ABSOLUTE"
    and "constraints (props node) = Some (h, ConstraintCENTER)"
  shows "''top: 50%'' \<in> set (getAbsolutePositionStyles str node (Some pf))
    \<and> (\<exists>before rest. last (getAbsolutePositionStyles str node (Some pf)) =
          ''transform: '' @ joinWith '' '' (before @ centerParts str ''Y'' (residualY node pf) @ rest)
        \<and> list_all (\<lambda>p. take 11 p \<noteq> ''translateY('') before
        \<and> list_all (\<lambda>p. take 11 p \<noteq> ''translateY('') rest)"
proof -
  let ?H = "(case h of
        ConstraintMAX \<Rightarrow> ([''right: '' @ str (roundPx (width (props pf) - (nodeX (props node) + width (props node)))) @ ''px''], [])
      | ConstraintCENTER \<Rightarrow>
          (let centerX = nodeX (props node) + width (props node) / 2;
               offsetX = roundPx (centerX - width (props pf) / 2)
           in ([''left: 50%''],
               ''translateX(-50%)'' #
                 (if mathRound offsetX \<noteq> 0
                  then [''translateX('' @ str offsetX @ ''px)''] else [])))
      | STRETCH \<Rightarrow> ([''left: '' @ str (roundPx (nodeX (props node))) @ ''px'', ''right: '' @ str (roundPx (width (props pf) - (nodeX (props node) + width (props node)))) @ ''px''], [])
      | _ \<Rightarrow> ([''left: '' @ str (roundPx (nodeX (props node))) @ ''px''], []))"
  obtain sh ph where h: "?H = (sh, ph)"
    by (cases ?H) auto
  have ph: "list_all (\<lambda>p. take 11 p \<noteq> ''translateY('') ph"
    using h by (cases h) (auto simp: Let_def split: if_splits)
  let ?pr = "if isMeaningfulRotation (rotation (props node))
             then [''rotate('' @ str (cssRotationDeg (rotation (props node))) @ ''deg)''] else []"
  let ?sr = "if isMeaningfulRotation (rotation (props node)) then [''transform-origin: 0 0''] else []"
  let ?z = "indexOfNode (children pf) node"
  have S: "getAbsolutePositionStyles str node (Some pf) =
      [''position: absolute''] @ (if ?z \<ge> 0 then [''z-index: '' @ showInt ?z] else []) @
      sh @ [''top: 50%''] @ ?sr @
      [''transform: '' @ joinWith '' '' (ph @ centerParts str ''Y'' (residualY node pf) @ ?pr)]"
    using assms h
    by (simp add: getAbsolutePositionStyles_def Let_def centerParts_def residualY_def)
  have pr: "list_all (\<lambda>p. take 11 p \<noteq> ''translateY('') ?pr"
    by simp
  have top: "''top: 50%'' \<in> set (getAbsolutePositionStyles str node (Some pf))"
    unfolding S by simp
  have last: "last (getAbsolutePositionStyles str node (Some pf)) =
      ''transform: '' @ joinWith '' '' (ph @ centerParts str ''Y'' (residualY node pf) @ ?pr)"
    unfolding S by simp
  from last ph pr have "\<exists>before rest. last (getAbsolutePositionStyles str node (Some pf)) =
          ''transform: '' @ joinWith '' '' (before @ centerParts str ''Y'' (residualY node pf) @ rest)
        \<and> list_all (\<lambda>p. take 11 p \<noteq> ''translateY('') before
        \<and> list_all (\<lambda>p. take 11 p \<noteq> ''translateY('') rest"
    by blast
  with top show ?thesis by blast
qed

text \<open>
  Claim C5, as stated, fails at its own example: a 50 by 20 child at local (0, 0) in a
  200 by 100 container has its centre at (25, 10), not at the container's centre
  (100, 50), and the residual translates \<open>-75px\<close> and \<open>-40px\<close> are emitted.
\<close>

theorem center_example_has_residual:
  "getAbsolutePositionStyles decimalString (exampleChild 0 0)
      (Some (exampleContainer (exampleChild 0 0)))
   = [''position: absolute'', ''z-index: 0'', ''left: 50%'', ''top: 50%'',
      ''transform: translateX(-50%) translateX(-75px) translateY(-50%) translateY(-40px)'']"
  by code_simp

text \<open>
  Claim C5, amended. For a child of a layout frame with \<^verbatim>\<open>layoutPositioning = ABSOLUTE\<close>,
  a CENTER constraint on an axis pins that axis's edge to \<open>50%\<close>, adds the \<open>-50%\<close>
  translate of that axis to the transform, and adds the residual translate (the child's
  centre minus the container's centre, rounded to hundredths) right after it exactly when
  the residual does not round to zero; the transform holds no other translate of that
  axis. The example of the specification is the witness below, with the child at the
  centred position (75, 40).
\<close>

theorem center_constraint:
  assumes "layoutPositioning (props node) = Some ABSOLUTE"
    and "constraints (props node) = Some (h, v)"
  shows "(h = ConstraintCENTER \<longrightarrow>
      ''left: 50%'' \<in> set (getAbsolutePositionStyles str node (Some pf))
      \<and> (\<exists>rest. last (getAbsolutePositionStyles str node (Some pf)) =
            ''transform: '' @ joinWith '' '' (centerParts str ''X'' (residualX node pf) @ rest)
          \<and> list_all (\<lambda>p. take 11 p \<noteq> ''translateX('') rest))
    \<and> (v = ConstraintCENTER \<longrightarrow>
      ''top: 50%'' \<in> set (getAbsolutePositionStyles str node (Some pf))
      \<and> (\<exists>before rest. last (getAbsolutePositionStyles str node (Some pf)) =
            ''transform: '' @ joinWith '' '' (before @ centerParts str ''Y'' (residualY node pf) @ rest)
          \<and> list_all (\<lambda>p. take 11 p \<noteq> ''translateY('') before
          \<and> list_all (\<lambda>p. take 11 p \<noteq> ''translateY('') rest))"
  using center_horizontal [OF assms(1), of v str pf] center_vertical [OF assms(1), of h str pf] assms(2)
  by blast

theorem center_constraint_witness:
  "getAbsolutePositionStyles decimalString (exampleChild 75 40)
      (Some (exampleContainer (exampleChild 75 40)))
   = [''position: absolute'', ''z-index: 0'', ''left: 50%'', ''top: 50%'',
      ''transform: translateX(-50%) translateY(-50%)'']
   \<and> ''left: 50%'' \<in> set (getAbsolutePositionStyles decimalString (exampleChild 75 40)
      (Some (exampleContainer (exampleChild 75 40))))
   \<and> centerParts decimalString ''X'' (residualX (exampleChild 75 40)
        (exampleContainer (exampleChild 75 40))) = [''translateX(-50%)'']
   \<and> centerParts decimalString ''X'' (residualX (exampleChild 0 0)
        (exampleContainer (exampleChild 0 0))) = [''translateX(-50%)'', ''translateX(-75px)'']"
proof -
  have a: "layoutPositioning (props (exampleChild 75 40)) = Some ABSOLUTE"
    by (simp add: exampleChild_def)
  have c: "constraints (props (exampleChild 75 40)) = Some (ConstraintCENTER, ConstraintCENTER)"
    by (simp add: exampleChild_def)
  have e: "getAbsolutePositionStyles decimalString (exampleChild 75 40)
      (Some (exampleContainer (exampleChild 75 40)))
   = [''position: absolute'', ''z-index: 0'', ''left: 50%'', ''top: 50%'',
      ''transform: translateX(-50%) translateY(-50%)'']"
    by code_simp
  have p: "centerParts decimalString ''X'' (residualX (exampleChild 75 40)
        (exampleContainer (exampleChild 75 40))) = [''translateX(-50%)'']"
    by code_simp
  have q: "centerParts decimalString ''X'' (residualX (exampleChild 0 0)
        (exampleContainer (exampleChild 0 0))) = [''translateX(-50%)'', ''translateX(-75px)'']"
    by code_simp
  from center_constraint [OF a c, of decimalString "exampleContainer (exampleChild 75 40)"]
  have "''left: 50%'' \<in> set (getAbsolutePositionStyles decimalString (exampleChild 75 40)
      (Some (exampleContainer (exampleChild 75 40))))"
    by blast
  with e p q show ?thesis by blast
qed

section \<open>The gap class of an auto-layout frame\<close>

lemma gap_addUtility:
  "filter isGapClass (fst (addUtility cls lines st)) =
     filter isGapClass (fst st) @ (if isGapClass cls then [cls] else [])"
  by (simp add: addUtility_def)

lemma gap_direction: "filter isGapClass (fst (flexDirectionUtilities f ctx)) = []"
  by (simp add: flexDirectionUtilities_def gap_addUtility isGapClass_def Let_def)

lemma gap_wrap: "filter isGapClass (fst (flexWrapUtilities str f st)) = filter isGapClass (fst st)"
  by (simp add: flexWrapUtilities_def gap_addUtility isGapClass_def Let_def)

lemma gap_padding: "filter isGapClass (fst (flexPaddingUtilities str f st)) = filter isGapClass (fst st)"
  by (simp add: flexPaddingUtilities_def gap_addUtility isGapClass_def Let_def)

lemma gap_align: "filter isGapClass (fst (flexAlignUtilities f st)) = filter isGapClass (fst st)"
  by (simp add: flexAlignUtilities_def gap_addUtility isGapClass_def Let_def
      split: PrimaryAlign.split CounterAlign.split)

lemma gap_gap:
  "filter isGapClass (fst (flexGapUtility str f st)) =
     filter isGapClass (fst st) @
     (if primaryAxisAlignItems f = SPACE_BETWEEN then []
      else [''gap-'' @ formatNegativeClassValue (itemSpacing f)])"
  by (simp add: flexGapUtility_def gap_addUtility isGapClass_def Let_def)

lemma utilityClasses_register:
  "utilityClasses (registerUtilityClass cls lines ctx) = insert cls (utilityClasses ctx)"
  by (auto simp: registerUtilityClass_def Let_def case_prod_unfold)

lemma utilityClasses_addUtility:
  "utilityClasses (snd (addUtility cls lines st)) = insert cls (utilityClasses (snd st))"
  by (simp add: addUtility_def utilityClasses_register)

lemma utilities_padding:
  "utilityClasses (snd st) \<subseteq> utilityClasses (snd (flexPaddingUtilities str f st))"
  by (auto simp: flexPaddingUtilities_def utilityClasses_addUtility Let_def)

lemma utilities_align:
  "utilityClasses (snd st) \<subseteq> utilityClasses (snd (flexAlignUtilities f st))"
  by (auto simp: flexAlignUtilities_def utilityClasses_addUtility Let_def)


lemma entries_register:
  "set (styleEntries ctx) \<subseteq> set (styleEntries (registerUtilityClass cls lines ctx))"
  by (auto simp: registerUtilityClass_def Let_def case_prod_unfold)

lemma entries_addUtility:
  "set (styleEntries (snd st)) \<subseteq> set (styleEntries (snd (addUtility cls lines st)))"
  unfolding addUtility_def using entries_register by simp

lemma entries_addUtility_trans:
  "set (styleEntries (snd st)) \<subseteq> set (styleEntries (snd s)) \<Longrightarrow>
     set (styleEntries (snd st)) \<subseteq> set (styleEntries (snd (addUtility cls lines s)))"
  using entries_addUtility [of s cls lines] by blast

lemma entries_padding:
  "set (styleEntries (snd st)) \<subseteq> set (styleEntries (snd (flexPaddingUtilities str f st)))"
  by (simp only: flexPaddingUtilities_def Let_def split: if_split)
    (intro conjI impI entries_addUtility_trans subset_refl)

lemma entries_align:
  "set (styleEntries (snd st)) \<subseteq> set (styleEntries (snd (flexAlignUtilities f st)))"
  unfolding flexAlignUtilities_def Let_def
  using entries_addUtility by (meson subset_trans)

lemma register_fresh:
  "cls \<notin> utilityClasses ctx \<Longrightarrow>
     ruleText cls lines \<in> cssText ` set (styleEntries (registerUtilityClass cls lines ctx))"
  by (simp add: registerUtilityClass_def Let_def case_prod_unfold image_iff)

lemma utilities_before_gap:
  "utilityClasses (snd (flexWrapUtilities str f (flexDirectionUtilities f ctx)))
     \<subseteq> utilityClasses ctx \<union> {c. \<not> isGapClass c}"
  by (auto simp: flexWrapUtilities_def flexDirectionUtilities_def utilityClasses_addUtility
      isGapClass_def Let_def split: if_splits)

text \<open>
  Claim C7. Among the classes that \<^verbatim>\<open>registerFlexUtilities\<close> returns for a frame there is
  exactly one gap class, \<open>gap-\<close> followed by the formatted item spacing, unless the
  primary-axis alignment is SPACE_BETWEEN, when there is none. The gap class is a
  registered utility class, and when this call is the first to register it, its rule is
  \<open>gap: <itemSpacing>px\<close>.
\<close>

theorem flex_gap_class:
  "filter isGapClass (fst (registerFlexUtilities str frame ctx)) =
     (if primaryAxisAlignItems (layout (props frame)) = SPACE_BETWEEN then []
      else [''gap-'' @ formatNegativeClassValue (itemSpacing (layout (props frame)))])
   \<and> (primaryAxisAlignItems (layout (props frame)) \<noteq> SPACE_BETWEEN \<longrightarrow>
        ''gap-'' @ formatNegativeClassValue (itemSpacing (layout (props frame)))
          \<in> utilityClasses (snd (registerFlexUtilities str frame ctx))
        \<and> (''gap-'' @ formatNegativeClassValue (itemSpacing (layout (props frame)))
              \<notin> utilityClasses ctx \<longrightarrow>
            ruleText (''gap-'' @ formatNegativeClassValue (itemSpacing (layout (props frame))))
              [''  gap: '' @ str (itemSpacing (layout (props frame))) @ ''px;'']
            \<in> cssText ` set (styleEntries (snd (registerFlexUtilities str frame ctx)))))"
proof -
  let ?f = "layout (props frame)"
  let ?gap = "''gap-'' @ formatNegativeClassValue (itemSpacing ?f)"
  let ?lines = "[''  gap: '' @ str (itemSpacing ?f) @ ''px;'']"
  let ?st3 = "flexWrapUtilities str ?f (flexDirectionUtilities ?f ctx)"
  let ?st4 = "flexGapUtility str ?f ?st3"
  have reg: "registerFlexUtilities str frame ctx =
      flexAlignUtilities ?f (flexPaddingUtilities str ?f ?st4)"
    by (simp add: registerFlexUtilities_def Let_def)
  have classes: "filter isGapClass (fst (registerFlexUtilities str frame ctx)) =
     (if primaryAxisAlignItems ?f = SPACE_BETWEEN then [] else [?gap])"
    unfolding reg by (simp add: gap_align gap_padding gap_gap gap_wrap gap_direction)
  have later_u: "utilityClasses (snd ?st4) \<subseteq> utilityClasses (snd (registerFlexUtilities str frame ctx))"
    unfolding reg using utilities_padding utilities_align by (meson subset_trans)
  have later_e: "set (styleEntries (snd ?st4)) \<subseteq> set (styleEntries (snd (registerFlexUtilities str frame ctx)))"
    unfolding reg using entries_padding entries_align by (meson subset_trans)
  have st4: "?st4 = addUtility ?gap ?lines ?st3" if "primaryAxisAlignItems ?f \<noteq> SPACE_BETWEEN"
    using that by (simp add: flexGapUtility_def Let_def)
  have member: "?gap \<in> utilityClasses (snd (registerFlexUtilities str frame ctx))"
    if ns: "primaryAxisAlignItems ?f \<noteq> SPACE_BETWEEN"
  proof -
    have "?gap \<in> utilityClasses (snd ?st4)"
      unfolding st4 [OF ns] by (simp add: utilityClasses_addUtility)
    with later_u show ?thesis by blast
  qed
  have rule: "ruleText ?gap ?lines \<in> cssText ` set (styleEntries (snd (registerFlexUtilities str frame ctx)))"
    if ns: "primaryAxisAlignItems ?f \<noteq> SPACE_BETWEEN" and fresh: "?gap \<notin> utilityClasses ctx"
  proof -
    have "isGapClass ?gap" by (simp add: isGapClass_def)
    with fresh utilities_before_gap [of str ?f ctx] have "?gap \<notin> utilityClasses (snd ?st3)"
      by blast
    then have "ruleText ?gap ?lines \<in> cssText ` set (styleEntries (registerUtilityClass ?gap ?lines (snd ?st3)))"
      by (rule register_fresh)
    then have "ruleText ?gap ?lines \<in> cssText ` set (styleEntries (snd ?st4))"
      unfolding st4 [OF ns] by (simp add: addUtility_def)
    with later_e show ?thesis by blast
  qed
  from classes member rule show ?thesis by blast
qed

theorem flex_gap_class_witness:
  "fst (registerFlexUtilities decimalString (exampleFlexFrame PrimaryMIN) freshContext)
     = [''flex'', ''flex-row'', ''gap-8'', ''p-16'', ''justify-start'', ''items-start'']
   \<and> fst (registerFlexUtilities decimalString (exampleFlexFrame SPACE_BETWEEN) freshContext)
     = [''flex'', ''flex-row'', ''p-16'', ''justify-between'', ''items-start'']
   \<and> filter isGapClass (fst (registerFlexUtilities decimalString (exampleFlexFrame PrimaryMIN) freshContext))
     = [''gap-8'']
   \<and> ''gap-8'' \<in> utilityClasses (snd (registerFlexUtilities decimalString (exampleFlexFrame PrimaryMIN) freshContext))
   \<and> ruleText ''gap-8'' [''  gap: 8px;'']
     \<in> cssText ` set (styleEntries (snd (registerFlexUtilities decimalString (exampleFlexFrame PrimaryMIN) freshContext)))"
proof -
  have a: "primaryAxisAlignItems (layout (props (exampleFlexFrame PrimaryMIN))) \<noteq> SPACE_BETWEEN"
    by (simp add: exampleFlexFrame_def)
  have g: "''gap-'' @ formatNegativeClassValue (itemSpacing (layout (props (exampleFlexFrame PrimaryMIN)))) = ''gap-8''"
    by code_simp
  have d: "decimalString (itemSpacing (layout (props (exampleFlexFrame PrimaryMIN)))) = ''8''"
    by code_simp
  have fresh: "''gap-8'' \<notin> utilityClasses freshContext"
    by (simp add: freshContext_def)
  have c1: "fst (registerFlexUtilities decimalString (exampleFlexFrame PrimaryMIN) freshContext)
     = [''flex'', ''flex-row'', ''gap-8'', ''p-16'', ''justify-start'', ''items-start'']"
    by code_simp
  have c2: "fst (registerFlexUtilities decimalString (exampleFlexFrame SPACE_BETWEEN) freshContext)
     = [''flex'', ''flex-row'', ''p-16'', ''justify-between'', ''items-start'']"
    by code_simp
  from flex_gap_class [of decimalString "exampleFlexFrame PrimaryMIN" freshContext] a fresh
  show ?thesis unfolding g d using c1 c2 by simp
qed


section \<open>Invisible nodes\<close>

text \<open>
  Claim C10. For a node whose \<open>visible\<close> flag is false the walker returns empty markup
  and the context it was given: no class name is minted, no style entry or utility class
  is registered, no font family is recorded and the SVG id counter stays.
\<close>

theorem invisible_node_no_effect:
  "\<not> visible (props node) \<Longrightarrow> nodeToHtmlCss H host node args ctx = Inr ([], ctx)"
  by (cases node) (simp add: nodeToHtmlCss.simps)

theorem invisible_node_no_effect_witness:
  "nodeToHtmlCss exampleHelpers (failingHost maskExampleFrame)
     (SceneNode ((props maskExampleFrame)\<lparr> visible := False \<rparr>) (children maskExampleFrame))
     (rootArgs Html) freshContext
   = Inr ([], freshContext)"
  using invisible_node_no_effect [of
      "SceneNode ((props maskExampleFrame)\<lparr> visible := False \<rparr>) (children maskExampleFrame)"
      exampleHelpers "failingHost maskExampleFrame" "rootArgs Html" freshContext]
  by simp

section \<open>Mask runs\<close>

lemma nextMask_ge: "k \<le> nextMask nodes k"
proof (induction nodes k rule: nextMask.induct)
  case (1 nodes k)
  then show ?case by (subst nextMask.simps) auto
qed

lemma nextMask_le: "k \<le> length nodes \<Longrightarrow> nextMask nodes k \<le> length nodes"
proof (induction nodes k rule: nextMask.induct)
  case (1 nodes k)
  then show ?case by (subst nextMask.simps) auto
qed










section \<open>Failures\<close>

lemma runMasked_fail:
  assumes "\<forall>m \<in> set ms. m < length kids"
    and "\<forall>kid \<in> set kids. \<forall>a c x. snd kid a c = Inl x \<longrightarrow> x \<in> F"
    and "runMasked E kids i ms html ctx = Inl e"
  shows "e \<in> F"
  using assms
proof (induction ms arbitrary: html ctx)
  case Nil
  then show ?case by simp
next
  case (Cons m ms)
  then have "kids ! m \<in> set kids" by simp
  with Cons.prems(2) have q: "\<forall>a c x. snd (kids ! m) a c = Inl x \<longrightarrow> x \<in> F" by blast
  show ?case
  proof (cases "snd (kids ! m) (maskedArgs E (fst (kids ! i)) (int (m - i - 1))) ctx")
    case (Inl x)
    with Cons.prems(3) have "x = e" by simp
    with Inl q show ?thesis by blast
  next
    case (Inr res)
    obtain h c where "res = (h, c)" by (cases res)
    with Inr Cons.prems(3) have "runMasked E kids i ms (html @ h) c = Inl e" by simp
    with Cons.IH Cons.prems(1,2) show ?thesis by simp
  qed
qed

lemma maskRun_fail:
  assumes "i < length kids" and "k \<le> length kids"
    and q: "\<forall>kid \<in> set kids. \<forall>a c x. snd kid a c = Inl x \<longrightarrow> x \<in> F"
    and "maskRun H E kids i k html ctx = Inl e"
  shows "e \<in> F"
proof -
  from assms(1) have "kids ! i \<in> set kids" by simp
  with q have qi: "\<forall>a c x. snd (kids ! i) a c = Inl x \<longrightarrow> x \<in> F" by blast
  have idx: "\<forall>m \<in> set [Suc i..<k]. m < length kids" using assms(2) by simp
  show ?thesis
  proof (cases "snd (kids ! i) (childArgs E i) ctx")
    case (Inl x)
    with assms(4) have "x = e" by (simp add: maskRun_def)
    with Inl qi show ?thesis by blast
  next
    case (Inr res)
    obtain h c where res: "res = (h, c)" by (cases res)
    let ?open = "html @ h @ wrapperOpen H E (fst (kids ! i)) (the (getClipPathFromMaskNode (fst (kids ! i)))) i"
    from assms(4) Inr res have "runMasked E kids i [Suc i..<k] ?open c = Inl e"
      by (simp add: maskRun_def Let_def split: if_splits sum.splits prod.splits)
    with idx q show ?thesis by (rule runMasked_fail)
  qed
qed

lemma maskRunLoop_fail:
  assumes "\<forall>kid \<in> set kids. \<forall>a c x. snd kid a c = Inl x \<longrightarrow> x \<in> F"
    and "maskRunLoop H E kids i html ctx = Inl e"
  shows "e \<in> F"
  using assms
proof (induction H E kids i html ctx rule: maskRunLoop.induct)
  case (1 H E kids i html ctx)
  note unfold = maskRunLoop.simps [of H E kids i html ctx]
  show ?case
  proof (cases "i < length kids")
    case False
    with "1.prems"(2) show ?thesis unfolding unfold by simp
  next
    case True
    then have "kids ! i \<in> set kids" by simp
    with "1.prems"(1) have qi: "\<forall>a c x. snd (kids ! i) a c = Inl x \<longrightarrow> x \<in> F" by blast
    let ?k = "nextMask (map fst kids) (Suc i)"
    from True have kle: "?k \<le> length kids"
      using nextMask_le [of "Suc i" "map fst kids"] by simp
    show ?thesis
    proof (cases "isMaskNode (fst (kids ! i))")
      case mask: True
      show ?thesis
      proof (cases "maskRun H E kids i ?k html ctx")
        case (Inl x)
        with "1.prems"(2) True mask have "x = e" unfolding unfold by simp
        with Inl maskRun_fail [OF True kle "1.prems"(1)] show ?thesis by blast
      next
        case (Inr res)
        obtain html' ctx' where res: "res = (html', ctx')" by (cases res)
        with "1.prems"(2) True mask Inr
        have "maskRunLoop H E kids ?k html' ctx' = Inl e" unfolding unfold by simp
        with "1.IH"(1) [OF True mask Inr res [symmetric]] "1.prems"(1) show ?thesis by blast
      qed
    next
      case plain: False
      show ?thesis
      proof (cases "snd (kids ! i) (childArgs E i) ctx")
        case (Inl x)
        with "1.prems"(2) True plain have "x = e" unfolding unfold by simp
        with Inl qi show ?thesis by blast
      next
        case (Inr res)
        obtain h ctx' where res: "res = (h, ctx')" by (cases res)
        with "1.prems"(2) True plain Inr
        have "maskRunLoop H E kids (Suc i) (html @ h) ctx' = Inl e" unfolding unfold by simp
        with "1.IH"(2) [OF True plain Inr res [symmetric]] "1.prems"(1) show ?thesis by blast
      qed
    qed
  qed
qed

lemma frameChildrenLoop_fail:
  assumes "\<forall>kid \<in> set kids. (\<forall>a c x. fst (snd kid) a c = Inl x \<longrightarrow> x \<in> F)
      \<and> (\<forall>g \<in> set (snd (snd kid)). \<forall>a c x. snd g a c = Inl x \<longrightarrow> x \<in> F)"
    and "frameChildrenLoop H frame args kids i html ctx = Inl e"
  shows "e \<in> F"
  using assms
proof (induction H frame args kids i html ctx rule: frameChildrenLoop.induct)
  case (1 H frame args kids i html ctx)
  note unfold = frameChildrenLoop.simps [of H frame args kids i html ctx]
  have stripped: "\<forall>kid \<in> set (map stripKid kids). \<forall>a c x. snd kid a c = Inl x \<longrightarrow> x \<in> F"
    using "1.prems"(1) by (simp add: stripKid_def)
  show ?case
  proof (cases "i < length kids")
    case False
    with "1.prems"(2) show ?thesis unfolding unfold by simp
  next
    case True
    then have mem: "kids ! i \<in> set kids" by simp
    with "1.prems"(1) have qi: "\<forall>a c x. fst (snd (kids ! i)) a c = Inl x \<longrightarrow> x \<in> F"
      and qg: "\<forall>g \<in> set (snd (snd (kids ! i))). \<forall>a c x. snd g a c = Inl x \<longrightarrow> x \<in> F"
      by blast+
    let ?k = "nextMask (map fst kids) (Suc i)"
    from True have kle: "?k \<le> length (map stripKid kids)"
      using nextMask_le [of "Suc i" "map fst kids"] by simp
    from True have il: "i < length (map stripKid kids)" by simp
    show ?thesis
    proof (cases "isFlattened frame (fst (kids ! i))")
      case flat: True
      let ?inner = "maskRunLoop H (flattenedEnv frame args) (snd (snd (kids ! i))) 0 html ctx"
      show ?thesis
      proof (cases ?inner)
        case (Inl x)
        with "1.prems"(2) True flat have "x = e" unfolding unfold by simp
        with Inl maskRunLoop_fail [OF qg] show ?thesis by blast
      next
        case (Inr res)
        obtain html' ctx' where res: "res = (html', ctx')" by (cases res)
        with "1.prems"(2) True flat Inr
        have "frameChildrenLoop H frame args kids (Suc i) html' ctx' = Inl e"
          unfolding unfold by simp
        with "1.IH"(1) [OF True flat Inr res [symmetric]] "1.prems"(1) show ?thesis by blast
      qed
    next
      case nf: False
      show ?thesis
      proof (cases "isMaskNode (fst (kids ! i))")
        case mask: True
        let ?mr = "maskRun H (frameEnv frame args) (map stripKid kids) i ?k html ctx"
        show ?thesis
        proof (cases ?mr)
          case (Inl x)
          with "1.prems"(2) True nf mask have "x = e" unfolding unfold by simp
          with Inl maskRun_fail [OF il kle stripped] show ?thesis by blast
        next
          case (Inr res)
          obtain html' ctx' where res: "res = (html', ctx')" by (cases res)
          with "1.prems"(2) True nf mask Inr
          have "frameChildrenLoop H frame args kids ?k html' ctx' = Inl e"
            unfolding unfold by simp
          with "1.IH"(2) [OF True nf mask Inr res [symmetric]] "1.prems"(1) show ?thesis by blast
        qed
      next
        case plain: False
        let ?r = "fst (snd (kids ! i)) (frameChildArgs frame args None 0) ctx"
        show ?thesis
        proof (cases ?r)
          case (Inl x)
          with "1.prems"(2) True nf plain have "x = e" unfolding unfold by simp
          with Inl qi show ?thesis by blast
        next
          case (Inr res)
          obtain h ctx' where res: "res = (h, ctx')" by (cases res)
          with "1.prems"(2) True nf plain Inr
          have "frameChildrenLoop H frame args kids (Suc i) (html @ h) ctx' = Inl e"
            unfolding unfold by simp
          with "1.IH"(3) [OF True nf plain Inr res [symmetric]] "1.prems"(1) show ?thesis by blast
        qed
      qed
    qed
  qed
qed

lemma frameBranch_fail:
  assumes "\<forall>kid \<in> set kids. (\<forall>a c x. fst (snd kid) a c = Inl x \<longrightarrow> x \<in> walkerFailures H)
      \<and> (\<forall>g \<in> set (snd (snd kid)). \<forall>a c x. snd g a c = Inl x \<longrightarrow> x \<in> walkerFailures H)"
    and "frameBranch H frame kids args ctx = Inl e"
  shows "e \<in> walkerFailures H"
proof -
  from assms(2) consider
      (styles) s where "frameInlineStyles H frame args s = Inl e"
    | (loop) html c where "frameChildrenLoop H frame args kids 0 html c = Inl e"
    by (auto simp: frameBranch_def Let_def split: if_splits sum.splits prod.splits)
  then show ?thesis
  proof cases
    case styles
    then show ?thesis by (auto simp: walkerFailures_def)
  next
    case loop
    with assms(1) show ?thesis by (rule frameChildrenLoop_fail)
  qed
qed

lemma groupBranch_fail:
  assumes "\<forall>kid \<in> set kids. \<forall>a c x. snd kid a c = Inl x \<longrightarrow> x \<in> walkerFailures H"
    and "groupBranch H grp kids args ctx = Inl e"
  shows "e \<in> walkerFailures H"
proof -
  from assms(2) consider
      (styles) "groupInlineStyles H grp args = Inl e"
    | (loop) E html c where "maskRunLoop H E kids 0 html c = Inl e"
    by (auto simp: groupBranch_def Let_def split: if_splits sum.splits prod.splits)
  then show ?thesis
  proof cases
    case styles
    then show ?thesis by (auto simp: walkerFailures_def)
  next
    case loop
    with assms(1) show ?thesis by (rule maskRunLoop_fail)
  qed
qed

lemma textBranch_fail:
  assumes "textBranch H host text args ctx = Inl e"
  shows "e \<in> walkerFailures H"
proof -
  from assms consider
      (caught) "e = mixedFillsTypeError"
    | (fill) "textFillStyles H text = Inl e"
    | (styles) s f where "textInlineStyles H text args s f = Inl e"
    by (auto simp: textBranch_def Let_def split: if_splits sum.splits prod.splits)
  then show ?thesis by cases (auto simp: walkerFailures_def)
qed

lemma blurredBranch_fail:
  assumes "blurredBranch H node args ctx = Inl e"
  shows "e \<in> walkerFailures H"
proof -
  from assms have "\<exists>c. blurredShapeMarkup H node args c = Inl e"
    by (auto simp: blurredBranch_def split: sum.splits)
  then show ?thesis by (auto simp: walkerFailures_def)
qed

lemma rectangleBranch_fail:
  assumes "rectangleBranch H rect args ctx = Inl e"
  shows "e \<in> walkerFailures H"
proof -
  from assms consider
      (blurred) "blurredBranch H rect args ctx = Inl e"
    | (styles) s where "rectInlineStyles H rect args s = Inl e"
    by (auto simp: rectangleBranch_def Let_def split: if_splits sum.splits)
  then show ?thesis
  proof cases
    case blurred
    then show ?thesis by (rule blurredBranch_fail)
  next
    case styles
    then show ?thesis by (auto simp: walkerFailures_def)
  qed
qed

lemma vectorBranch_fail:
  assumes "vectorBranch H host node args ctx = Inl e"
  shows "e \<in> walkerFailures H"
proof -
  from assms consider
      (base) s where "vectorBaseStyles H node args s = Inl e"
    | (placeholder) c s where "vectorPlaceholderMarkup H node args c s = Inl e"
    by (auto simp: vectorBranch_def Let_def split: if_splits sum.splits)
  then show ?thesis by cases (auto simp: walkerFailures_def)
qed

lemma nodeToHtmlCss_fail:
  "nodeToHtmlCss H host node args ctx = Inl e \<Longrightarrow> e \<in> walkerFailures H"
proof (induction H host node arbitrary: args ctx e rule: nodeToHtmlCss.induct)
  case (1 H host p cs)
  let ?kids = "map (\<lambda>c. (c, nodeToHtmlCss H host c,
                   map (\<lambda>g. (g, nodeToHtmlCss H host g)) (children c))) cs"
  from "1.prems" have v: "visible p"
    by (auto simp: nodeToHtmlCss.simps split: if_splits)
  have kids: "\<forall>kid \<in> set ?kids.
      (\<forall>a c x. fst (snd kid) a c = Inl x \<longrightarrow> x \<in> walkerFailures H)
      \<and> (\<forall>g \<in> set (snd (snd kid)). \<forall>a c x. snd g a c = Inl x \<longrightarrow> x \<in> walkerFailures H)"
    using "1.IH" v by auto
  then have stripped: "\<forall>kid \<in> set (map stripKid ?kids).
      \<forall>a c x. snd kid a c = Inl x \<longrightarrow> x \<in> walkerFailures H"
    by (simp add: stripKid_def)
  from v "1.prems" have b: "nodeBranch H host (SceneNode p cs) ?kids args ctx = Inl e"
    by (simp add: nodeToHtmlCss.simps)
  show ?case
  proof (cases "nodeType p")
    case FRAME
    with b have "frameBranch H (SceneNode p cs) ?kids args ctx = Inl e"
      by (simp add: nodeBranch_def)
    with kids show ?thesis by (rule frameBranch_fail)
  next
    case COMPONENT
    with b have "frameBranch H (SceneNode p cs) ?kids args ctx = Inl e"
      by (simp add: nodeBranch_def)
    with kids show ?thesis by (rule frameBranch_fail)
  next
    case INSTANCE
    with b have "frameBranch H (SceneNode p cs) ?kids args ctx = Inl e"
      by (simp add: nodeBranch_def)
    with kids show ?thesis by (rule frameBranch_fail)
  next
    case GROUP
    with b have "groupBranch H (SceneNode p cs) (map stripKid ?kids) args ctx = Inl e"
      by (simp add: nodeBranch_def)
    with stripped show ?thesis by (rule groupBranch_fail)
  next
    case TRANSFORM_GROUP
    with b have "groupBranch H (SceneNode p cs) (map stripKid ?kids) args ctx = Inl e"
      by (simp add: nodeBranch_def)
    with stripped show ?thesis by (rule groupBranch_fail)
  next
    case TEXT
    with b have "textBranch H host (SceneNode p cs) args ctx = Inl e"
      by (simp add: nodeBranch_def)
    then show ?thesis by (rule textBranch_fail)
  next
    case RECTANGLE
    with b have "rectangleBranch H (SceneNode p cs) args ctx = Inl e"
      by (simp add: nodeBranch_def)
    then show ?thesis by (rule rectangleBranch_fail)
  next
    case ELLIPSE
    with b have "blurredBranch H (SceneNode p cs) args ctx = Inl e
        \<or> vectorBranch H host (SceneNode p cs) args ctx = Inl e"
      by (simp add: nodeBranch_def split: if_splits)
    then show ?thesis using blurredBranch_fail vectorBranch_fail by blast
  next
    case OTHER_NODE
    with b show ?thesis by (simp add: nodeBranch_def)
  qed (use b in \<open>simp_all add: nodeBranch_def vectorBranch_fail\<close>)
qed

lemma vector_recovery:
  assumes "nodeType (props node) \<in> {VECTOR, LINE, POLYGON, STAR, BOOLEAN_OPERATION}"
    and "visible (props node)"
    and "\<not> invisibleStrokesOnly H node"
    and "exportAsync host node = Inl x"
    and "vectorBaseStyles H node args (snd (snd (sizingUtilities H node (parentLayoutMode args))))
           = Inr baseStyles"
    and "vectorPlaceholderMarkup H node args
           (fst (snd (sizingUtilities H node (parentLayoutMode args)))) baseStyles = Inr box"
  shows "nodeToHtmlCss H host node args ctx =
           Inr (box, registerAll (fst (sizingUtilities H node (parentLayoutMode args))) ctx)"
proof (cases node)
  case (SceneNode p cs)
  with assms(2) have "nodeToHtmlCss H host node args ctx =
      nodeBranch H host node
        (map (\<lambda>c. (c, nodeToHtmlCss H host c,
                     map (\<lambda>g. (g, nodeToHtmlCss H host g)) (children c))) cs) args ctx"
    by (simp add: nodeToHtmlCss.simps)
  also have "\<dots> = vectorBranch H host node args ctx"
    using assms(1) by (auto simp: nodeBranch_def)
  also have "\<dots> = Inr (box, registerAll (fst (sizingUtilities H node (parentLayoutMode args))) ctx)"
    using assms(3-6) by (simp add: vectorBranch_def Let_def)
  finally show ?thesis .
qed



lemma onmessage_one_effect: "length (onmessage H host msg) = 1"
  by (simp add: onmessage_def Let_def split: ExportMessage.split sum.split)


end
